theory Spec2Isabelle
  imports Complex_Main
begin

section \<open>Hillshade: a shallow embedding of \<open>xrspatial/hillshade.py\<close>\<close>

text \<open>
  The module computes an illumination value per cell of a 2D elevation grid. It has a
  host kernel (\<open>_run_numpy\<close>), a device kernel (\<open>_gpu_calc_numba\<close>, launched
  and post-processed by \<open>_run_cupy\<close>), a tiled path (\<open>_run_dask_numpy\<close>) and a
  dispatcher (\<open>hillshade\<close>).

  Numbers. A cell holds an IEEE value: a finite number, one of the two infinities, or
  not-a-number. The special values follow IEEE 754 (\<open>inf - inf\<close>, \<open>inf * 0\<close>,
  \<open>sin inf\<close> are not-a-number; \<open>atan inf\<close> is \<open>pi/2\<close>; not-a-number is contagious).
  On finite values every arithmetic operation and function returns the exact real
  result: the rounding of double-precision arithmetic, overflow, underflow and the sign
  of zero are not modelled, and \<open>np.pi\<close> is the real number \<open>pi\<close>. Numeric literals of
  the source are the decimal numbers they denote. The one rounding that is modelled is
  the store into the \<open>float32\<close> buffer of the device path.
\<close>

subsection \<open>Cell values\<close>

datatype fval = Fin real | PInf | NInf | NaN

fun fneg :: "fval \<Rightarrow> fval" where
  "fneg (Fin a) = Fin (- a)"
| "fneg PInf = NInf"
| "fneg NInf = PInf"
| "fneg NaN = NaN"

fun fadd :: "fval \<Rightarrow> fval \<Rightarrow> fval" where
  "fadd NaN _ = NaN"
| "fadd _ NaN = NaN"
| "fadd (Fin a) (Fin b) = Fin (a + b)"
| "fadd PInf NInf = NaN"
| "fadd NInf PInf = NaN"
| "fadd PInf _ = PInf"
| "fadd NInf _ = NInf"
| "fadd (Fin a) PInf = PInf"
| "fadd (Fin a) NInf = NInf"

definition fsub :: "fval \<Rightarrow> fval \<Rightarrow> fval" where
  "fsub a b = fadd a (fneg b)"

text \<open>The sign of a product with an infinite factor; a zero factor gives not-a-number.\<close>

definition inf_times :: "bool \<Rightarrow> real \<Rightarrow> fval" where
  "inf_times positive a =
     (if a = 0 then NaN else if (0 < a) = positive then PInf else NInf)"

fun fmul :: "fval \<Rightarrow> fval \<Rightarrow> fval" where
  "fmul NaN _ = NaN"
| "fmul _ NaN = NaN"
| "fmul (Fin a) (Fin b) = Fin (a * b)"
| "fmul PInf PInf = PInf"
| "fmul NInf NInf = PInf"
| "fmul PInf NInf = NInf"
| "fmul NInf PInf = NInf"
| "fmul PInf (Fin a) = inf_times True a"
| "fmul NInf (Fin a) = inf_times False a"
| "fmul (Fin a) PInf = inf_times True a"
| "fmul (Fin a) NInf = inf_times False a"

text \<open>
  Division by a positive finite constant: the source divides by \<open>2\<close>, and
  \<open>np.gradient\<close> by the unit spacing \<open>1.0\<close> and by \<open>2. * 1.0\<close>.
\<close>

fun fdiv_pos :: "fval \<Rightarrow> real \<Rightarrow> fval" where
  "fdiv_pos (Fin a) c = Fin (a / c)"
| "fdiv_pos PInf c = PInf"
| "fdiv_pos NInf c = NInf"
| "fdiv_pos NaN c = NaN"

fun fsqrt :: "fval \<Rightarrow> fval" where
  "fsqrt (Fin a) = (if a < 0 then NaN else Fin (sqrt a))"
| "fsqrt PInf = PInf"
| "fsqrt NInf = NaN"
| "fsqrt NaN = NaN"

fun farctan :: "fval \<Rightarrow> fval" where
  "farctan (Fin a) = Fin (arctan a)"
| "farctan PInf = Fin (pi / 2)"
| "farctan NInf = Fin (- (pi / 2))"
| "farctan NaN = NaN"

fun fsin :: "fval \<Rightarrow> fval" where
  "fsin (Fin a) = Fin (sin a)"
| "fsin _ = NaN"

fun fcos :: "fval \<Rightarrow> fval" where
  "fcos (Fin a) = Fin (cos a)"
| "fcos _ = NaN"

text \<open>The two-argument arctangent \<open>atan2 y x\<close> on finite arguments.\<close>

definition arctan2 :: "real \<Rightarrow> real \<Rightarrow> real" where
  "arctan2 y x =
     (if 0 < x then arctan (y / x)
      else if x < 0 then (if 0 \<le> y then arctan (y / x) + pi else arctan (y / x) - pi)
      else if 0 < y then pi / 2
      else if y < 0 then - (pi / 2)
      else 0)"

fun farctan2 :: "fval \<Rightarrow> fval \<Rightarrow> fval" where
  "farctan2 NaN _ = NaN"
| "farctan2 _ NaN = NaN"
| "farctan2 (Fin y) (Fin x) = Fin (arctan2 y x)"
| "farctan2 PInf (Fin x) = Fin (pi / 2)"
| "farctan2 NInf (Fin x) = Fin (- (pi / 2))"
| "farctan2 PInf PInf = Fin (pi / 4)"
| "farctan2 NInf PInf = Fin (- (pi / 4))"
| "farctan2 PInf NInf = Fin (3 * pi / 4)"
| "farctan2 NInf NInf = Fin (- (3 * pi / 4))"
| "farctan2 (Fin y) PInf = Fin 0"
| "farctan2 (Fin y) NInf = Fin (if 0 \<le> y then pi else - pi)"

subsection \<open>Arrays and failures\<close>

text \<open>
  A 2D array is its shape and its cells, read by row and column index. Cells outside
  the shape are never read by the definitions below.
\<close>

record ndarray =
  nrows :: nat
  ncols :: nat
  item :: "nat \<Rightarrow> nat \<Rightarrow> fval"

datatype error = ValueError | IndexError | TypeError | NotImplementedError

text \<open>An array written out as its list of rows.\<close>

definition of_rows :: "fval list list \<Rightarrow> ndarray" where
  "of_rows rs =
     \<lparr>nrows = length rs, ncols = (case rs of [] \<Rightarrow> 0 | r # _ \<Rightarrow> length r),
      item = (\<lambda>i j. rs ! i ! j)\<rparr>"

definition full :: "nat \<Rightarrow> nat \<Rightarrow> fval \<Rightarrow> ndarray" where
  "full r c v = \<lparr>nrows = r, ncols = c, item = (\<lambda>i j. v)\<rparr>"

text \<open>Element-wise operations of numpy on one array and on two arrays of one shape.\<close>

definition arr_map :: "(fval \<Rightarrow> fval) \<Rightarrow> ndarray \<Rightarrow> ndarray" where
  "arr_map f a = a\<lparr>item := (\<lambda>i j. f (item a i j))\<rparr>"

definition arr_map2 :: "(fval \<Rightarrow> fval \<Rightarrow> fval) \<Rightarrow> ndarray \<Rightarrow> ndarray \<Rightarrow> ndarray" where
  "arr_map2 f a b = a\<lparr>item := (\<lambda>i j. f (item a i j) (item b i j))\<rparr>"

subsection \<open>\<open>np.gradient\<close>\<close>

text \<open>
  \<open>np.gradient(data)\<close> with the default unit spacing and \<open>edge_order=1\<close>, as numpy
  documents and implements it: it raises \<open>ValueError\<close> when an axis has fewer than
  \<open>edge_order + 1 = 2\<close> elements; otherwise, along each axis, interior points get the
  central difference \<open>(f[k+1] - f[k-1]) / (2. * 1.0)\<close>, the first point
  \<open>(f[1] - f[0]) / 1.0\<close> and the last \<open>(f[-1] - f[-2]) / 1.0\<close>. It returns the
  gradient along the rows (axis 0) and along the columns (axis 1).
\<close>

definition diff1 :: "nat \<Rightarrow> (nat \<Rightarrow> fval) \<Rightarrow> nat \<Rightarrow> fval" where
  "diff1 n f k =
     (if k = 0 then fdiv_pos (fsub (f 1) (f 0)) 1
      else if k = n - 1 then fdiv_pos (fsub (f (n - 1)) (f (n - 2))) 1
      else fdiv_pos (fsub (f (k + 1)) (f (k - 1))) (2 * 1))"

definition np_gradient :: "ndarray \<Rightarrow> error + ndarray \<times> ndarray" where
  "np_gradient f =
     (if nrows f < 2 \<or> ncols f < 2 then Inl ValueError
      else Inr (f\<lparr>item := (\<lambda>i j. diff1 (nrows f) (\<lambda>k. item f k j) i)\<rparr>,
                f\<lparr>item := (\<lambda>i j. diff1 (ncols f) (\<lambda>k. item f i k) j)\<rparr>))"

subsection \<open>The host kernel\<close>

text \<open>Failures propagate: the first one ends the computation.\<close>

definition then_do :: "error + 'a \<Rightarrow> ('a \<Rightarrow> error + 'b) \<Rightarrow> error + 'b" where
  "then_do r f = (case r of Inl e \<Rightarrow> Inl e | Inr v \<Rightarrow> f v)"

text \<open>
  Python indexing of an axis of length \<open>n\<close>: a negative index counts from the end, and
  an index outside the axis raises \<open>IndexError\<close>.
\<close>

definition py_index :: "nat \<Rightarrow> int \<Rightarrow> error + nat" where
  "py_index n k =
     (let idx = (if k < 0 then int n + k else k)
      in if idx < 0 \<or> int n \<le> idx then Inl IndexError else Inr (nat idx))"

text \<open>\<open>a[k, :] = np.nan\<close> and \<open>a[:, k] = np.nan\<close>.\<close>

definition set_row_nan :: "int \<Rightarrow> ndarray \<Rightarrow> error + ndarray" where
  "set_row_nan k a =
     then_do (py_index (nrows a) k)
       (\<lambda>r. Inr (a\<lparr>item := (\<lambda>i j. if i = r then NaN else item a i j)\<rparr>))"

definition set_col_nan :: "int \<Rightarrow> ndarray \<Rightarrow> error + ndarray" where
  "set_col_nan k a =
     then_do (py_index (ncols a) k)
       (\<lambda>c. Inr (a\<lparr>item := (\<lambda>i j. if j = c then NaN else item a i j)\<rparr>))"

text \<open>
  \<open>_run_numpy\<close>. The assignments \<open>result[(0, -1), :] = np.nan\<close> and
  \<open>result[:, (0, -1)] = np.nan\<close> write rows \<open>0\<close> and \<open>-1\<close>, then columns \<open>0\<close> and \<open>-1\<close>.
\<close>

definition run_numpy :: "ndarray \<Rightarrow> real \<Rightarrow> real \<Rightarrow> error + ndarray" where
  "run_numpy data azimuth0 angle_altitude =
     (let azimuth = 360 - azimuth0 in
      then_do (np_gradient data) (\<lambda>(x, y).
        let slope = arr_map (\<lambda>v. fsub (Fin (pi / 2)) (farctan (fsqrt v)))
                      (arr_map2 fadd (arr_map2 fmul x x) (arr_map2 fmul y y));
            aspect = arr_map2 farctan2 (arr_map fneg x) y;
            azimuthrad = azimuth * pi / 180;
            altituderad = angle_altitude * pi / 180;
            shaded = arr_map2 fadd
                       (arr_map (fmul (Fin (sin altituderad))) (arr_map fsin slope))
                       (arr_map2 fmul
                          (arr_map (fmul (Fin (cos altituderad))) (arr_map fcos slope))
                          (arr_map (\<lambda>a. fcos (fsub (Fin (azimuthrad - pi / 2)) a)) aspect));
            result = arr_map (\<lambda>v. fdiv_pos (fadd v (Fin 1)) 2) shaded
        in then_do (set_row_nan 0 result) (\<lambda>r1.
           then_do (set_row_nan (- 1) r1) (\<lambda>r2.
           then_do (set_col_nan 0 r2) (\<lambda>r3.
           set_col_nan (- 1) r3)))))"

text \<open>
  The value the host kernel computes for one cell from the two gradients there
  (lines 29 to 36 of the source, for one element).
\<close>

definition host_cell :: "real \<Rightarrow> real \<Rightarrow> fval \<Rightarrow> fval \<Rightarrow> fval" where
  "host_cell azimuth0 angle_altitude x y =
     fdiv_pos
       (fadd
          (fadd
             (fmul (Fin (sin (angle_altitude * pi / 180)))
                (fsin (fsub (Fin (pi / 2)) (farctan (fsqrt (fadd (fmul x x) (fmul y y)))))))
             (fmul
                (fmul (Fin (cos (angle_altitude * pi / 180)))
                   (fcos (fsub (Fin (pi / 2)) (farctan (fsqrt (fadd (fmul x x) (fmul y y)))))))
                (fcos (fsub (Fin ((360 - azimuth0) * pi / 180 - pi / 2)) (farctan2 (fneg x) y)))))
          (Fin 1))
       2"

subsection \<open>The device kernel\<close>

text \<open>
  The output buffer of the device path holds \<open>np.float32\<close> values
  (\<open>cupy.empty(d_data.shape, np.float32)\<close>), so the store \<open>output[i, j] = ...\<close>
  rounds to IEEE binary32: 24 significant bits, exponents from \<open>-126\<close> (below that the
  spacing stays \<open>2^-149\<close>), nearest value with ties to the even significand, and an
  infinity when the rounded magnitude reaches \<open>2^128\<close>.
\<close>

definition round_half_even :: "real \<Rightarrow> int" where
  "round_half_even x =
     (let f = \<lfloor>x\<rfloor>; d = x - of_int f
      in if d < 1 / 2 then f else if 1 / 2 < d then f + 1 else if even f then f else f + 1)"

definition round32 :: "real \<Rightarrow> real" where
  "round32 v =
     (if v = 0 then 0
      else let e = max \<lfloor>log 2 \<bar>v\<bar>\<rfloor> (- 126); q = power_int 2 (e - 23)
           in of_int (round_half_even (v / q)) * q)"

fun to_float32 :: "fval \<Rightarrow> fval" where
  "to_float32 (Fin v) =
     (let r = round32 v
      in if 2 ^ 128 \<le> \<bar>r\<bar> then (if 0 < v then PInf else NInf) else Fin r)"
| "to_float32 PInf = PInf"
| "to_float32 NInf = NInf"
| "to_float32 NaN = NaN"

text \<open>
  What the module takes from its surroundings: whether \<open>has_cuda()\<close> finds a device,
  the launch configuration \<open>cuda_args(shape)\<close> (grid and block dimensions; both
  functions live in \<open>xrspatial.utils\<close>), and the contents of the buffer that
  \<open>cupy.empty\<close> returns, which are whatever the memory held.
\<close>

record env =
  has_cuda :: bool
  cuda_args :: "nat \<times> nat \<Rightarrow> (nat \<times> nat) \<times> (nat \<times> nat)"
  uninit :: "nat \<Rightarrow> nat \<Rightarrow> fval"

text \<open>
  \<open>_gpu_calc_numba\<close> for the thread whose \<open>cuda.grid(2)\<close> is \<open>(i, j)\<close>: it returns
  the output buffer after the thread's write, if any.
\<close>

definition gpu_calc_numba ::
  "ndarray \<Rightarrow> ndarray \<Rightarrow> real \<Rightarrow> real \<Rightarrow> real \<Rightarrow> nat \<times> nat \<Rightarrow> ndarray" where
  "gpu_calc_numba data output sin_altituderad cos_altituderad azimuthrad ij =
     (case ij of (i, j) \<Rightarrow>
      if 0 < i \<and> int i < int (nrows data) - 1 \<and> 0 < j \<and> int j < int (ncols data) - 1 then
        let x = fdiv_pos (fsub (item data (i + 1) j) (item data (i - 1) j)) 2;
            y = fdiv_pos (fsub (item data i (j + 1)) (item data i (j - 1))) 2;
            len = fsqrt (fadd (fmul x x) (fmul y y));
            slope = fsub (Fin 1.57079632679) (farctan len);
            aspect = fsub (Fin (azimuthrad - 1.57079632679)) (farctan2 (fneg x) y);
            sin_slope = fsin slope;
            sin_part = fmul (Fin sin_altituderad) sin_slope;
            cos_aspect = fcos aspect;
            cos_slope = fcos slope;
            cos_part = fmul (fmul (Fin cos_altituderad) cos_slope) cos_aspect;
            res = fadd sin_part cos_part
        in output\<lparr>item := (\<lambda>i' j'. if i' = i \<and> j' = j
                                     then to_float32 (fmul (fadd res (Fin 1)) (Fin 0.5))
                                     else item output i' j')\<rparr>
      else output)"

text \<open>
  A launch \<open>kernel[griddim, blockdim](...)\<close> runs one thread for every index pair below
  \<open>griddim * blockdim\<close> in each dimension. A thread writes its own cell only, so the
  threads are run here one after the other.
\<close>

definition launch ::
  "(nat \<times> nat) \<times> (nat \<times> nat) \<Rightarrow> (nat \<times> nat \<Rightarrow> ndarray \<Rightarrow> ndarray) \<Rightarrow> ndarray \<Rightarrow> ndarray" where
  "launch cfg thread output =
     (case cfg of ((g0, g1), (b0, b1)) \<Rightarrow>
        fold thread (List.product [0..<g0 * b0] [0..<g1 * b1]) output)"

definition run_cupy :: "env \<Rightarrow> ndarray \<Rightarrow> real \<Rightarrow> real \<Rightarrow> error + ndarray" where
  "run_cupy ev d_data azimuth angle_altitude =
     (let altituderad = angle_altitude * pi / 180;
          sin_altituderad = sin altituderad;
          cos_altituderad = cos altituderad;
          azimuthrad = (360 - azimuth) * pi / 180;
          output = \<lparr>nrows = nrows d_data, ncols = ncols d_data, item = uninit ev\<rparr>;
          cfg = cuda_args ev (nrows d_data, ncols d_data);
          output1 = launch cfg
                      (\<lambda>ij out. gpu_calc_numba d_data out sin_altituderad cos_altituderad
                                  azimuthrad ij)
                      output
      in then_do (set_row_nan 0 output1) (\<lambda>o1.
         then_do (set_row_nan (- 1) o1) (\<lambda>o2.
         then_do (set_col_nan 0 o2) (\<lambda>o3.
         set_col_nan (- 1) o3))))"

text \<open>
  The value \<open>(res + 1) * 0.5\<close> that a device thread computes from its two gradients
  (lines 70 to 82 of the source) before it is stored, with the constant that the source
  writes as \<open>1.57079632679\<close> as a parameter; and the value that the thread stores.
\<close>

definition gpu_cell_with :: "real \<Rightarrow> real \<Rightarrow> real \<Rightarrow> real \<Rightarrow> fval \<Rightarrow> fval \<Rightarrow> fval" where
  "gpu_cell_with half_pi sin_altituderad cos_altituderad azimuthrad x y =
     fmul
       (fadd
          (fadd
             (fmul (Fin sin_altituderad)
                (fsin (fsub (Fin half_pi) (farctan (fsqrt (fadd (fmul x x) (fmul y y)))))))
             (fmul
                (fmul (Fin cos_altituderad)
                   (fcos (fsub (Fin half_pi) (farctan (fsqrt (fadd (fmul x x) (fmul y y)))))))
                (fcos (fsub (Fin (azimuthrad - half_pi)) (farctan2 (fneg x) y)))))
          (Fin 1))
       (Fin 0.5)"

definition gpu_cell :: "real \<Rightarrow> real \<Rightarrow> real \<Rightarrow> fval \<Rightarrow> fval \<Rightarrow> fval" where
  "gpu_cell = gpu_cell_with 1.57079632679"

definition gpu_stored :: "real \<Rightarrow> real \<Rightarrow> real \<Rightarrow> fval \<Rightarrow> fval \<Rightarrow> fval" where
  "gpu_stored sin_altituderad cos_altituderad azimuthrad x y =
     to_float32 (gpu_cell sin_altituderad cos_altituderad azimuthrad x y)"

text \<open>The central difference that both kernels take at an interior position.\<close>

definition central :: "fval \<Rightarrow> fval \<Rightarrow> fval" where
  "central hi lo = fdiv_pos (fsub hi lo) 2"

subsection \<open>The tiled path\<close>

text \<open>
  A dask array is a grid cut into chunks: the chunk heights and the chunk widths, in
  order. Its content is computed on demand, and the computation may fail; it is kept
  here as the outcome that \<open>compute()\<close> would give. The chunks hold numpy arrays or
  cupy arrays (what \<open>is_cupy_backed\<close> of \<open>xrspatial.utils\<close> tells).
\<close>

datatype chunk_kind = NumpyChunks | CupyChunks

record dask_array =
  backing :: chunk_kind
  row_chunks :: "nat list"
  col_chunks :: "nat list"
  content :: "error + ndarray"

text \<open>
  \<open>map_overlap(func, depth=(1, 1), boundary=np.nan)\<close>, as dask documents it: the grid
  is padded with one ring of \<open>nan\<close>; every chunk is extended by one cell on each side,
  taken from the padded grid; \<open>func\<close> runs on every extended chunk; one cell is trimmed
  from each side of every result; the trimmed results are put together again.
\<close>

definition pad_nan :: "ndarray \<Rightarrow> ndarray" where
  "pad_nan a =
     \<lparr>nrows = nrows a + 2, ncols = ncols a + 2,
      item = (\<lambda>i j. if 1 \<le> i \<and> i \<le> nrows a \<and> 1 \<le> j \<and> j \<le> ncols a
                      then item a (i - 1) (j - 1) else NaN)\<rparr>"

text \<open>The sub-array of \<open>h\<close> rows from row \<open>r0\<close> and \<open>w\<close> columns from column \<open>c0\<close>.\<close>

definition block :: "ndarray \<Rightarrow> nat \<Rightarrow> nat \<Rightarrow> nat \<Rightarrow> nat \<Rightarrow> ndarray" where
  "block a r0 h c0 w = \<lparr>nrows = h, ncols = w, item = (\<lambda>i j. item a (r0 + i) (c0 + j))\<rparr>"

definition trim :: "ndarray \<Rightarrow> ndarray" where
  "trim a = block a 1 (nrows a - 2) 1 (ncols a - 2)"

text \<open>Every chunk with the position where it starts.\<close>

fun starts :: "nat \<Rightarrow> nat list \<Rightarrow> (nat \<times> nat) list" where
  "starts off [] = []"
| "starts off (n # ns) = (off, n) # starts (off + n) ns"

definition hstack :: "ndarray \<Rightarrow> ndarray \<Rightarrow> ndarray" where
  "hstack a b =
     \<lparr>nrows = nrows a, ncols = ncols a + ncols b,
      item = (\<lambda>i j. if j < ncols a then item a i j else item b i (j - ncols a))\<rparr>"

definition vstack :: "ndarray \<Rightarrow> ndarray \<Rightarrow> ndarray" where
  "vstack a b =
     \<lparr>nrows = nrows a + nrows b, ncols = ncols a,
      item = (\<lambda>i j. if i < nrows a then item a i j else item b (i - nrows a) j)\<rparr>"

fun concat_cols :: "ndarray list \<Rightarrow> ndarray" where
  "concat_cols [] = \<lparr>nrows = 0, ncols = 0, item = (\<lambda>i j. NaN)\<rparr>"
| "concat_cols (b # bs) = hstack b (concat_cols bs)"

fun concat_rows :: "ndarray list \<Rightarrow> ndarray" where
  "concat_rows [] = \<lparr>nrows = 0, ncols = 0, item = (\<lambda>i j. NaN)\<rparr>"
| "concat_rows (b # bs) = vstack b (concat_rows bs)"

fun collect :: "(error + 'a) list \<Rightarrow> error + 'a list" where
  "collect [] = Inr []"
| "collect (r # rs) = then_do r (\<lambda>v. then_do (collect rs) (\<lambda>vs. Inr (v # vs)))"

definition map_overlap ::
  "(ndarray \<Rightarrow> error + ndarray) \<Rightarrow> nat list \<Rightarrow> nat list \<Rightarrow> ndarray \<Rightarrow> error + ndarray" where
  "map_overlap func rs cs a =
     then_do
       (collect (map (\<lambda>(r0, h).
          then_do
            (collect (map (\<lambda>(c0, w).
               then_do (func (block (pad_nan a) r0 (h + 2) c0 (w + 2)))
                 (\<lambda>out. Inr (trim out)))
               (starts 0 cs)))
            (\<lambda>bs. Inr (concat_cols bs)))
          (starts 0 rs)))
       (\<lambda>bands. Inr (concat_rows bands))"

text \<open>\<open>_run_dask_numpy\<close>: the result is again a dask array with the same chunks.\<close>

definition run_dask_numpy :: "dask_array \<Rightarrow> real \<Rightarrow> real \<Rightarrow> dask_array" where
  "run_dask_numpy data azimuth angle_altitude =
     (let func = (\<lambda>tile. run_numpy tile azimuth angle_altitude)
      in data\<lparr>content :=
           then_do (content data) (map_overlap func (row_chunks data) (col_chunks data))\<rparr>)"

definition run_dask_cupy :: "dask_array \<Rightarrow> real \<Rightarrow> real \<Rightarrow> error + dask_array" where
  "run_dask_cupy data azimuth angle_altitude = Inl NotImplementedError"

text \<open>A dask array is well formed when its chunks add up to the shape of its content.\<close>

definition chunked :: "dask_array \<Rightarrow> ndarray \<Rightarrow> bool" where
  "chunked da a \<longleftrightarrow>
     content da = Inr a \<and> sum_list (row_chunks da) = nrows a \<and> sum_list (col_chunks da) = ncols a"

subsection \<open>The dispatcher\<close>

text \<open>
  The data of the input \<open>DataArray\<close> by storage: a numpy array, a cupy array, a dask
  array, or anything else. The model is of the module after \<open>import cupy\<close> has
  succeeded, so that \<open>cupy.ndarray\<close> is a type.
\<close>

datatype array_data =
  is_np_ndarray: NumpyArray (np_of: ndarray)
| is_cupy_ndarray: CupyArray (cupy_of: ndarray)
| is_da_Array: DaskArray (dask_of: dask_array)
| OtherData

record ('c, 'a) data_array =
  data :: array_data
  name :: "string option"
  coords :: 'c
  dims :: "string list"
  attrs :: 'a

text \<open>
  Modelled from the spec: \<open>is_cupy_backed\<close> of \<open>xrspatial.utils\<close> is not among the
  sources. The spec's dispatcher tells a tiled buffer backed by device-resident tiles
  from one backed by host-resident tiles; that is the backing of the dask array.
\<close>

definition is_cupy_backed :: "('c, 'a) data_array \<Rightarrow> bool" where
  "is_cupy_backed agg \<longleftrightarrow> is_da_Array (data agg) \<and> backing (dask_of (data agg)) = CupyChunks"

text \<open>\<open>xr.DataArray(out, name=name, coords=agg.coords, dims=agg.dims, attrs=agg.attrs)\<close>\<close>

definition wrap :: "('c, 'a) data_array \<Rightarrow> string option \<Rightarrow> array_data \<Rightarrow> ('c, 'a) data_array" where
  "wrap agg nm out =
     \<lparr>data = out, name = nm, coords = coords agg, dims = dims agg, attrs = attrs agg\<rparr>"

definition hillshade ::
  "env \<Rightarrow> ('c, 'a) data_array \<Rightarrow> real \<Rightarrow> real \<Rightarrow> string option \<Rightarrow> error + ('c, 'a) data_array" where
  "hillshade ev agg azimuth angle_altitude nm =
     then_do
       (if is_np_ndarray (data agg) then
          then_do (run_numpy (np_of (data agg)) azimuth angle_altitude)
            (\<lambda>out. Inr (NumpyArray out))
        else if has_cuda ev \<and> is_cupy_ndarray (data agg) then
          then_do (run_cupy ev (cupy_of (data agg)) azimuth angle_altitude)
            (\<lambda>out. Inr (CupyArray out))
        else if has_cuda ev \<and> is_da_Array (data agg) \<and> is_cupy_backed agg then
          then_do (run_dask_cupy (dask_of (data agg)) azimuth angle_altitude)
            (\<lambda>out. Inr (DaskArray out))
        else if is_da_Array (data agg) then
          Inr (DaskArray (run_dask_numpy (dask_of (data agg)) azimuth angle_altitude))
        else Inl TypeError)
       (\<lambda>out. Inr (wrap agg nm out))"

text \<open>
  An interior position: not on the first or last row or column. Reading one cell of a
  result that may be a failure.
\<close>

definition interior :: "ndarray \<Rightarrow> nat \<Rightarrow> nat \<Rightarrow> bool" where
  "interior d i j \<longleftrightarrow> 0 < i \<and> i + 1 < nrows d \<and> 0 < j \<and> j + 1 < ncols d"

definition on_border :: "ndarray \<Rightarrow> nat \<Rightarrow> nat \<Rightarrow> bool" where
  "on_border d i j \<longleftrightarrow>
     i < nrows d \<and> j < ncols d \<and> (i = 0 \<or> i = nrows d - 1 \<or> j = 0 \<or> j = ncols d - 1)"

definition cell_of :: "error + ndarray \<Rightarrow> nat \<Rightarrow> nat \<Rightarrow> error + fval" where
  "cell_of r i j = (case r of Inl e \<Rightarrow> Inl e | Inr a \<Rightarrow> Inr (item a i j))"

definition shape_of :: "error + ndarray \<Rightarrow> error + nat \<times> nat" where
  "shape_of r = (case r of Inl e \<Rightarrow> Inl e | Inr a \<Rightarrow> Inr (nrows a, ncols a))"

text \<open>The threads of a launch.\<close>

definition launched :: "(nat \<times> nat) \<times> (nat \<times> nat) \<Rightarrow> nat \<Rightarrow> nat \<Rightarrow> bool" where
  "launched cfg i j =
     (case cfg of ((g0, g1), (b0, b1)) \<Rightarrow> i < g0 * b0 \<and> j < g1 * b1)"

text \<open>
  For the tiled path: the value at grid position \<open>(i, j)\<close> computed from the padded
  grid (whose position \<open>(i + 1, j + 1)\<close> holds cell \<open>(i, j)\<close>), and the trimmed result
  of the chunk of rows \<open>rh = (r0, h)\<close> and columns \<open>cw = (c0, w)\<close>.
\<close>

definition halo_cell :: "ndarray \<Rightarrow> real \<Rightarrow> real \<Rightarrow> nat \<Rightarrow> nat \<Rightarrow> fval" where
  "halo_cell a az alt i j =
     host_cell az alt
       (central (item (pad_nan a) (i + 2) (j + 1)) (item (pad_nan a) i (j + 1)))
       (central (item (pad_nan a) (i + 1) (j + 2)) (item (pad_nan a) (i + 1) j))"

definition tile_out :: "ndarray \<Rightarrow> real \<Rightarrow> real \<Rightarrow> nat \<times> nat \<Rightarrow> nat \<times> nat \<Rightarrow> ndarray" where
  "tile_out a az alt rh cw =
     \<lparr>nrows = snd rh, ncols = snd cw,
      item = (\<lambda>k l. if l = snd cw \<or> k = snd rh then NaN
                     else halo_cell a az alt (fst rh + k) (fst cw + l))\<rparr>"

definition failure_of :: "error + 'a \<Rightarrow> error option" where
  "failure_of r = (case r of Inl e \<Rightarrow> Some e | Inr v \<Rightarrow> None)"

text \<open>
  The shaded value of both kernels as a formula on real numbers: \<open>h\<close> is the constant
  used for \<open>pi / 2\<close>, \<open>r\<close> the arctangent of the gradient's length and \<open>t\<close> the
  two-argument arctangent \<open>atan2 (- x) y\<close>.
\<close>

definition shade :: "real \<Rightarrow> real \<Rightarrow> real \<Rightarrow> real \<Rightarrow> real \<Rightarrow> real \<Rightarrow> real" where
  "shade h sa ca azr r t = sa * sin (h - r) + ca * cos (h - r) * cos (azr - h - t)"

subsection \<open>The element type of the host kernel's output\<close>

text \<open>
  The floating-point element types of numpy, and how \<open>_run_numpy\<close> arrives at the type
  of its result. numpy promotes two arrays to the larger type; \<open>np.gradient\<close> and the
  functions \<open>sqrt\<close>, \<open>arctan\<close>, \<open>arctan2\<close>, \<open>sin\<close>, \<open>cos\<close> keep a floating-point type.
  A scalar operand is treated by one of two rule sets.

  Under the value-based casting of numpy 1.x a floating-point scalar, be it a Python
  float (\<open>np.pi/2.\<close>, \<open>azimuthrad - np.pi/2.\<close>) or an \<open>np.float64\<close>
  (\<open>np.sin(altituderad)\<close>, \<open>np.cos(altituderad)\<close>), counts with the smallest type that
  holds its value (\<open>min_scalar_type\<close>: \<open>float16\<close> strictly between \<open>-65000\<close> and
  \<open>65000\<close>, \<open>float32\<close> strictly between \<open>-3.4e38\<close> and \<open>3.4e38\<close>, else \<open>float64\<close>).

  Under the rules of numpy 2 a Python float leaves the array's type as it is, and an
  \<open>np.float64\<close> scalar promotes like an array of type \<open>float64\<close>.

  The integers \<open>1\<close> and \<open>2\<close> of \<open>(shaded + 1) / 2\<close> leave a floating-point type as it is
  under both rule sets.
\<close>

datatype dtype = Float16 | Float32 | Float64 | LongDouble

datatype promotion = ValueBased | NumPy2

fun rank :: "dtype \<Rightarrow> nat" where
  "rank Float16 = 0"
| "rank Float32 = 1"
| "rank Float64 = 2"
| "rank LongDouble = 3"

definition promote :: "dtype \<Rightarrow> dtype \<Rightarrow> dtype" where
  "promote a b = (if rank a \<le> rank b then b else a)"

definition min_scalar_type :: "real \<Rightarrow> dtype" where
  "min_scalar_type v =
     (if - 65000 < v \<and> v < 65000 then Float16
      else if - (34 * 10 ^ 37) < v \<and> v < 34 * 10 ^ 37 then Float32
      else Float64)"

fun with_py_scalar :: "promotion \<Rightarrow> real \<Rightarrow> dtype \<Rightarrow> dtype" where
  "with_py_scalar ValueBased v a = promote a (min_scalar_type v)"
| "with_py_scalar NumPy2 v a = a"

fun with_float64_scalar :: "promotion \<Rightarrow> real \<Rightarrow> dtype \<Rightarrow> dtype" where
  "with_float64_scalar ValueBased v a = promote a (min_scalar_type v)"
| "with_float64_scalar NumPy2 v a = promote Float64 a"

definition with_small_int :: "dtype \<Rightarrow> dtype" where
  "with_small_int a = a"

definition run_numpy_dtype :: "promotion \<Rightarrow> real \<Rightarrow> real \<Rightarrow> dtype \<Rightarrow> dtype" where
  "run_numpy_dtype p azimuth0 angle_altitude data_dtype =
     (let azimuth = 360 - azimuth0;
          x = data_dtype; y = data_dtype;
          slope = with_py_scalar p (pi / 2) (promote (promote x x) (promote y y));
          aspect = promote x y;
          azimuthrad = azimuth * pi / 180;
          altituderad = angle_altitude * pi / 180;
          shaded = promote (with_float64_scalar p (sin altituderad) slope)
                     (promote (with_float64_scalar p (cos altituderad) slope)
                        (with_py_scalar p (azimuthrad - pi / 2) aspect));
          result = with_small_int (with_small_int shaded)
      in result)"

section \<open>Properties\<close>

subsection \<open>What the host kernel returns\<close>

lemma then_do_simps [simp]:
  "then_do (Inl e) f = Inl e"
  "then_do (Inr v) f = f v"
  by (simp_all add: then_do_def)

lemma py_index_0: "py_index n 0 = (if n = 0 then Inl IndexError else Inr 0)"
  by (simp add: py_index_def)

lemma py_index_last: "py_index n (- 1) = (if n = 0 then Inl IndexError else Inr (n - 1))"
  by (auto simp: py_index_def Let_def nat_diff_distrib' of_nat_diff)

lemma diff1_interior: "0 < k \<Longrightarrow> k < n - 1 \<Longrightarrow> diff1 n f k = central (f (k + 1)) (f (k - 1))"
  by (simp add: diff1_def central_def)

lemma run_numpy_eq:
  "run_numpy d az alt =
     (if nrows d < 2 \<or> ncols d < 2 then Inl ValueError
      else Inr (d\<lparr>item := (\<lambda>i j.
             if j = ncols d - 1 \<or> j = 0 \<or> i = nrows d - 1 \<or> i = 0 then NaN
             else host_cell az alt (diff1 (nrows d) (\<lambda>k. item d k j) i)
                                   (diff1 (ncols d) (\<lambda>k. item d i k) j))\<rparr>))"
  by (auto simp: run_numpy_def np_gradient_def set_row_nan_def set_col_nan_def
      py_index_0 py_index_last arr_map_def arr_map2_def Let_def host_cell_def fun_eq_iff)

lemma run_numpy_error_iff:
  "run_numpy d az alt = Inl e \<longleftrightarrow> (nrows d < 2 \<or> ncols d < 2) \<and> e = ValueError"
  by (auto simp: run_numpy_eq)

subsection \<open>What the device path returns\<close>

lemma gpu_calc_numba_item:
  "item (gpu_calc_numba d out sa ca az (i, j)) i' j' =
     (if i' = i \<and> j' = j \<and> interior d i j
      then gpu_stored sa ca az (central (item d (i + 1) j) (item d (i - 1) j))
                             (central (item d i (j + 1)) (item d i (j - 1)))
      else item out i' j')"
  by (auto simp: gpu_calc_numba_def interior_def gpu_stored_def gpu_cell_def gpu_cell_with_def
      central_def Let_def)

lemma gpu_calc_numba_shape:
  "nrows (gpu_calc_numba d out sa ca az ij) = nrows out"
  "ncols (gpu_calc_numba d out sa ca az ij) = ncols out"
  by (auto simp: gpu_calc_numba_def Let_def split: prod.splits)

lemma fold_gpu_shape:
  "nrows (fold (\<lambda>ij out. gpu_calc_numba d out sa ca az ij) ijs out0) = nrows out0 \<and>
   ncols (fold (\<lambda>ij out. gpu_calc_numba d out sa ca az ij) ijs out0) = ncols out0"
  by (induction ijs arbitrary: out0) (simp_all add: gpu_calc_numba_shape)

lemma fold_gpu_item:
  "item (fold (\<lambda>ij out. gpu_calc_numba d out sa ca az ij) ijs out0) i j =
     (if (i, j) \<in> set ijs \<and> interior d i j
      then gpu_stored sa ca az (central (item d (i + 1) j) (item d (i - 1) j))
                             (central (item d i (j + 1)) (item d i (j - 1)))
      else item out0 i j)"
proof (induction ijs arbitrary: out0)
  case Nil
  show ?case by simp
next
  case (Cons ij ijs)
  obtain a b where ij: "ij = (a, b)" by (cases ij)
  show ?case
    unfolding ij fold_simps Cons.IH
    by (auto simp: gpu_calc_numba_item)
qed

lemma launch_item:
  "item (launch cfg (\<lambda>ij out. gpu_calc_numba d out sa ca az ij) out0) i j =
     (if launched cfg i j \<and> interior d i j
      then gpu_stored sa ca az (central (item d (i + 1) j) (item d (i - 1) j))
                             (central (item d i (j + 1)) (item d i (j - 1)))
      else item out0 i j)"
  by (simp add: launch_def launched_def fold_gpu_item split: prod.splits)

lemma launch_shape:
  "nrows (launch cfg (\<lambda>ij out. gpu_calc_numba d out sa ca az ij) out0) = nrows out0"
  "ncols (launch cfg (\<lambda>ij out. gpu_calc_numba d out sa ca az ij) out0) = ncols out0"
  by (simp_all add: launch_def fold_gpu_shape split: prod.splits)

lemma run_cupy_shape:
  "shape_of (run_cupy ev d az alt) =
     (if nrows d = 0 \<or> ncols d = 0 then Inl IndexError else Inr (nrows d, ncols d))"
  by (simp add: run_cupy_def Let_def set_row_nan_def set_col_nan_def py_index_0 py_index_last
      launch_shape shape_of_def)

lemma run_cupy_cell:
  "cell_of (run_cupy ev d az alt) i j =
     (if nrows d = 0 \<or> ncols d = 0 then Inl IndexError
      else Inr (if j = ncols d - 1 \<or> j = 0 \<or> i = nrows d - 1 \<or> i = 0 then NaN
                else if launched (cuda_args ev (nrows d, ncols d)) i j \<and> interior d i j
                then gpu_stored (sin (alt * pi / 180)) (cos (alt * pi / 180))
                       ((360 - az) * pi / 180)
                       (central (item d (i + 1) j) (item d (i - 1) j))
                       (central (item d i (j + 1)) (item d i (j - 1)))
                else uninit ev i j))"
  by (simp add: run_cupy_def Let_def set_row_nan_def set_col_nan_def py_index_0 py_index_last
      launch_shape launch_item cell_of_def)

lemma run_numpy_cell:
  "cell_of (run_numpy d az alt) i j =
     (if nrows d < 2 \<or> ncols d < 2 then Inl ValueError
      else Inr (if j = ncols d - 1 \<or> j = 0 \<or> i = nrows d - 1 \<or> i = 0 then NaN
                else host_cell az alt (diff1 (nrows d) (\<lambda>k. item d k j) i)
                                      (diff1 (ncols d) (\<lambda>k. item d i k) j)))"
  by (simp add: run_numpy_eq cell_of_def)

lemma run_numpy_shape:
  "shape_of (run_numpy d az alt) =
     (if nrows d < 2 \<or> ncols d < 2 then Inl ValueError else Inr (nrows d, ncols d))"
  by (simp add: run_numpy_eq shape_of_def)

lemma run_numpy_interior:
  "interior d i j \<Longrightarrow>
   cell_of (run_numpy d az alt) i j =
     Inr (host_cell az alt (central (item d (i + 1) j) (item d (i - 1) j))
                           (central (item d i (j + 1)) (item d i (j - 1))))"
  by (auto simp: run_numpy_cell interior_def diff1_interior)

subsection \<open>The border\<close>

text \<open>
  C3: for every grid of shape \<open>(R, C)\<close> with \<open>R, C \<ge> 2\<close>, every cell of row \<open>0\<close>, row
  \<open>R - 1\<close>, column \<open>0\<close> and column \<open>C - 1\<close> of the output is not-a-number, for the host
  kernel and for the device path alike (whatever the launch configuration and the
  initial contents of the device buffer).
\<close>

theorem C3_border_undefined:
  assumes "2 \<le> nrows d" and "2 \<le> ncols d" and "on_border d i j"
  shows "cell_of (run_numpy d az alt) i j = Inr NaN \<and>
         cell_of (run_cupy ev d az alt) i j = Inr NaN"
  using assms by (auto simp: run_numpy_cell run_cupy_cell on_border_def)

theorem C3_witness:
  "on_border (of_rows [[Fin 1, Fin 2], [Fin 3, Fin 4], [Fin 5, Fin 6]]) 2 1 \<and>
   cell_of (run_numpy (of_rows [[Fin 1, Fin 2], [Fin 3, Fin 4], [Fin 5, Fin 6]]) 225 25) 2 1
     = Inr NaN \<and>
   cell_of (run_cupy \<lparr>has_cuda = True, cuda_args = (\<lambda>sh. (sh, (1, 1))), uninit = (\<lambda>i j. Fin 7)\<rparr>
              (of_rows [[Fin 1, Fin 2], [Fin 3, Fin 4], [Fin 5, Fin 6]]) 225 25) 2 1
     = Inr NaN"
proof -
  let ?d = "of_rows [[Fin 1, Fin 2], [Fin 3, Fin 4], [Fin 5, Fin 6]]"
  have b: "on_border ?d 2 1" by (simp add: on_border_def of_rows_def)
  have r: "2 \<le> nrows ?d" and c: "2 \<le> ncols ?d" by (simp_all add: of_rows_def)
  show ?thesis using b C3_border_undefined [OF r c b] by simp
qed

subsection \<open>A flat surface\<close>

lemma central_same: "central (Fin e) (Fin e) = Fin 0"
  by (simp add: central_def fsub_def)

lemma host_cell_flat:
  "host_cell az alt (Fin 0) (Fin 0) = Fin ((sin (alt * pi / 180) + 1) / 2)"
  by (simp add: host_cell_def fsub_def)

text \<open>
  C2: on a grid whose cells all hold the same finite elevation, the host kernel's output
  at every interior cell is \<open>(sin altitude_rad + 1) / 2\<close> with
  \<open>altitude_rad = altitude * pi / 180\<close>, whatever the azimuth. (Interior cells exist
  only from shape 3x3 on.)
\<close>

theorem C2_flat_surface:
  assumes "\<forall>k l. k < nrows d \<and> l < ncols d \<longrightarrow> item d k l = Fin e"
    and "interior d i j"
  shows "cell_of (run_numpy d az alt) i j = Inr (Fin ((sin (alt * pi / 180) + 1) / 2))"
proof -
  from assms(2) have ij: "0 < i" "i + 1 < nrows d" "0 < j" "j + 1 < ncols d"
    by (simp_all add: interior_def)
  from assms(1) ij have
    "item d (i + 1) j = Fin e" "item d (i - 1) j = Fin e"
    "item d i (j + 1) = Fin e" "item d i (j - 1) = Fin e"
    by simp_all
  then show ?thesis
    by (simp add: run_numpy_interior [OF assms(2)] central_same host_cell_flat)
qed

theorem C2_witness:
  "interior (full 3 4 (Fin 120)) 1 2 \<and>
   cell_of (run_numpy (full 3 4 (Fin 120)) 225 25) 1 2 = Inr (Fin ((sin (25 * pi / 180) + 1) / 2)) \<and>
   cell_of (run_numpy (full 3 4 (Fin 120)) 10 25) 1 2 = Inr (Fin ((sin (25 * pi / 180) + 1) / 2))"
proof -
  have f: "\<forall>k l. k < nrows (full 3 4 (Fin 120)) \<and> l < ncols (full 3 4 (Fin 120))
             \<longrightarrow> item (full 3 4 (Fin 120)) k l = Fin 120"
    by (simp add: full_def)
  have i: "interior (full 3 4 (Fin 120)) 1 2" by (simp add: interior_def full_def)
  show ?thesis
    using i C2_flat_surface [OF f i, of 225 25] C2_flat_surface [OF f i, of 10 25] by simp
qed

subsection \<open>No-data values\<close>

lemma fadd_NaN_right [simp]: "fadd a NaN = NaN"
  by (cases a) simp_all

lemma fmul_NaN_right [simp]: "fmul a NaN = NaN"
  by (cases a) simp_all

lemma farctan2_NaN_right [simp]: "farctan2 a NaN = NaN"
  by (cases a) simp_all

lemma central_NaN [simp]: "central NaN b = NaN" "central a NaN = NaN"
  by (simp_all add: central_def fsub_def)

lemma host_cell_NaN [simp]: "host_cell az alt NaN y = NaN" "host_cell az alt x NaN = NaN"
  by (simp_all add: host_cell_def fsub_def)

text \<open>
  C6 (as stated: an interior cell with a not-a-number or an infinite value among its row
  and column neighbours gets not-a-number). It fails for an infinite neighbour: the
  gradient is infinite, its arctangent is \<open>pi / 2\<close>, the slope is \<open>0\<close>, and the output is
  the finite number \<open>(cos altitude_rad * cos azimuth_rad + 1) / 2\<close>.
\<close>

theorem C6_counterexample:
  "cell_of (run_numpy (of_rows [[Fin 0, Fin 0, Fin 0],
                                [Fin 0, Fin 0, Fin 0],
                                [Fin 0, PInf, Fin 0]]) 225 25) 1 1
   = Inr (Fin ((cos (25 * pi / 180) * cos ((360 - 225) * pi / 180) + 1) / 2))"
proof -
  let ?d = "of_rows [[Fin 0, Fin 0, Fin 0], [Fin 0, Fin 0, Fin 0], [Fin 0, PInf, Fin 0]]"
  have i: "interior ?d 1 1" by (simp add: interior_def of_rows_def)
  have x: "central (item ?d (1 + 1) 1) (item ?d (1 - 1) 1) = PInf"
    by (simp add: of_rows_def central_def fsub_def)
  have y: "central (item ?d 1 (1 + 1)) (item ?d 1 (1 - 1)) = Fin 0"
    by (simp add: of_rows_def central_def fsub_def)
  have "host_cell 225 25 PInf (Fin 0)
        = Fin ((cos (25 * pi / 180) * cos ((360 - 225) * pi / 180) + 1) / 2)"
    by (simp add: host_cell_def fsub_def)
  then show ?thesis
    unfolding run_numpy_interior [OF i] x y by simp
qed

text \<open>
  C6 (amended): an interior cell with a not-a-number among its two row neighbours and
  two column neighbours gets not-a-number from the host kernel.
\<close>

theorem C6_nan_propagates:
  assumes "interior d i j"
    and "item d (i + 1) j = NaN \<or> item d (i - 1) j = NaN \<or>
         item d i (j + 1) = NaN \<or> item d i (j - 1) = NaN"
  shows "cell_of (run_numpy d az alt) i j = Inr NaN"
  using assms(2) by (auto simp: run_numpy_interior [OF assms(1)])

theorem C6_witness:
  "interior (of_rows [[Fin 0, Fin 0, Fin 0], [NaN, Fin 0, Fin 0], [Fin 0, Fin 0, Fin 0]]) 1 1 \<and>
   item (of_rows [[Fin 0, Fin 0, Fin 0], [NaN, Fin 0, Fin 0], [Fin 0, Fin 0, Fin 0]]) 1 (1 - 1)
     = NaN \<and>
   cell_of (run_numpy (of_rows [[Fin 0, Fin 0, Fin 0], [NaN, Fin 0, Fin 0],
                                [Fin 0, Fin 0, Fin 0]]) 225 25) 1 1 = Inr NaN"
proof -
  let ?d = "of_rows [[Fin 0, Fin 0, Fin 0], [NaN, Fin 0, Fin 0], [Fin 0, Fin 0, Fin 0]]"
  have i: "interior ?d 1 1" by (simp add: interior_def of_rows_def)
  have n: "item ?d 1 (1 - 1) = NaN" by (simp add: of_rows_def)
  then have h: "item ?d (1 + 1) 1 = NaN \<or> item ?d (1 - 1) 1 = NaN \<or>
         item ?d 1 (1 + 1) = NaN \<or> item ?d 1 (1 - 1) = NaN" by blast
  show ?thesis using i n C6_nan_propagates [OF i h] by simp
qed

subsection \<open>The cell's own elevation\<close>

text \<open>
  C10: the output at an interior cell \<open>(i, j)\<close> does not depend on the input at
  \<open>(i, j)\<close>: two grids of one shape that agree everywhere except possibly at \<open>(i, j)\<close>
  get the same output there, from the host kernel and from the device path (run in the
  same surroundings). This holds at every interior cell, so in particular at those with
  a further ring of interior neighbours.
\<close>

theorem C10_own_cell_irrelevant:
  assumes "nrows d' = nrows d" and "ncols d' = ncols d"
    and "\<forall>k l. (k, l) \<noteq> (i, j) \<longrightarrow> item d' k l = item d k l"
    and "interior d i j"
  shows "cell_of (run_numpy d' az alt) i j = cell_of (run_numpy d az alt) i j \<and>
         cell_of (run_cupy ev d' az alt) i j = cell_of (run_cupy ev d az alt) i j"
proof -
  from assms(4) have ij: "0 < i" "0 < j" by (simp_all add: interior_def)
  from assms(1,2,4) have i': "interior d' i j" by (simp add: interior_def)
  from assms(3) ij have nb:
    "item d' (i + 1) j = item d (i + 1) j" "item d' (i - 1) j = item d (i - 1) j"
    "item d' i (j + 1) = item d i (j + 1)" "item d' i (j - 1) = item d i (j - 1)"
    by simp_all
  have host: "cell_of (run_numpy d' az alt) i j = cell_of (run_numpy d az alt) i j"
    unfolding run_numpy_interior [OF i'] run_numpy_interior [OF assms(4)] nb ..
  have dev: "cell_of (run_cupy ev d' az alt) i j = cell_of (run_cupy ev d az alt) i j"
    unfolding run_cupy_cell nb assms(1,2) using i' assms(4) by simp
  from host dev show ?thesis ..
qed

theorem C10_witness:
  "interior (full 3 3 (Fin 4)) 1 1 \<and>
   cell_of (run_numpy ((full 3 3 (Fin 4))\<lparr>item := (\<lambda>k l. if k = 1 \<and> l = 1 then Fin 9 else Fin 4)\<rparr>)
              225 25) 1 1
     = cell_of (run_numpy (full 3 3 (Fin 4)) 225 25) 1 1 \<and>
   cell_of (run_cupy \<lparr>has_cuda = True, cuda_args = (\<lambda>sh. (sh, (1, 1))), uninit = (\<lambda>i j. Fin 7)\<rparr>
              ((full 3 3 (Fin 4))\<lparr>item := (\<lambda>k l. if k = 1 \<and> l = 1 then Fin 9 else Fin 4)\<rparr>)
              225 25) 1 1
     = cell_of (run_cupy \<lparr>has_cuda = True, cuda_args = (\<lambda>sh. (sh, (1, 1))), uninit = (\<lambda>i j. Fin 7)\<rparr>
                  (full 3 3 (Fin 4)) 225 25) 1 1"
proof -
  let ?d = "full 3 3 (Fin 4)"
  let ?d' = "?d\<lparr>item := (\<lambda>k l. if k = 1 \<and> l = 1 then Fin 9 else Fin 4)\<rparr>"
  have r: "nrows ?d' = nrows ?d" and c: "ncols ?d' = ncols ?d" by simp_all
  have e: "\<forall>k l. (k, l) \<noteq> (1, 1) \<longrightarrow> item ?d' k l = item ?d k l"
    by (simp add: full_def)
  have i: "interior ?d 1 1" by (simp add: interior_def full_def)
  show ?thesis using i C10_own_cell_irrelevant [OF r c e i] by simp
qed

subsection \<open>The tiled path\<close>

lemma collect_Inr: "collect (map (\<lambda>x. Inr (g x)) xs) = Inr (map g xs)"
  by (induction xs) simp_all

lemma concat_cols_ncols:
  assumes "\<And>p. p \<in> set (starts off cs) \<Longrightarrow> ncols (g p) = snd p"
  shows "ncols (concat_cols (map g (starts off cs))) = sum_list cs"
  using assms by (induction cs arbitrary: off) (simp_all add: hstack_def)

lemma concat_cols_item:
  assumes "\<And>c0 w. (c0, w) \<in> set (starts off cs) \<Longrightarrow>
             ncols (g (c0, w)) = w \<and> (\<forall>l<w. item (g (c0, w)) i l = V (c0 + l))"
    and "j < sum_list cs"
  shows "item (concat_cols (map g (starts off cs))) i j = V (off + j)"
  using assms
proof (induction cs arbitrary: off j)
  case Nil
  then show ?case by simp
next
  case (Cons n ns)
  have hd: "ncols (g (off, n)) = n" "\<forall>l<n. item (g (off, n)) i l = V (off + l)"
    using Cons.prems(1) [of off n] by simp_all
  show ?case
  proof (cases "j < n")
    case True
    then show ?thesis using hd by (simp add: hstack_def)
  next
    case False
    then have j: "j - n < sum_list ns" using Cons.prems(2) by simp
    have "item (concat_cols (map g (starts (off + n) ns))) i (j - n) = V (off + n + (j - n))"
      by (rule Cons.IH [OF _ j]) (use Cons.prems(1) in simp)
    then show ?thesis using False hd by (simp add: hstack_def)
  qed
qed

lemma concat_rows_nrows:
  assumes "\<And>p. p \<in> set (starts off rs) \<Longrightarrow> nrows (g p) = snd p"
  shows "nrows (concat_rows (map g (starts off rs))) = sum_list rs"
  using assms by (induction rs arbitrary: off) (simp_all add: vstack_def)

lemma concat_rows_item:
  assumes "\<And>r0 h. (r0, h) \<in> set (starts off rs) \<Longrightarrow>
             nrows (g (r0, h)) = h \<and> (\<forall>k<h. item (g (r0, h)) k j = V (r0 + k))"
    and "i < sum_list rs"
  shows "item (concat_rows (map g (starts off rs))) i j = V (off + i)"
  using assms
proof (induction rs arbitrary: off i)
  case Nil
  then show ?case by simp
next
  case (Cons n ns)
  have hd: "nrows (g (off, n)) = n" "\<forall>k<n. item (g (off, n)) k j = V (off + k)"
    using Cons.prems(1) [of off n] by simp_all
  show ?case
  proof (cases "i < n")
    case True
    then show ?thesis using hd by (simp add: vstack_def)
  next
    case False
    then have i: "i - n < sum_list ns" using Cons.prems(2) by simp
    have "item (concat_rows (map g (starts (off + n) ns))) (i - n) j = V (off + n + (i - n))"
      by (rule Cons.IH [OF _ i]) (use Cons.prems(1) in simp)
    then show ?thesis using False hd by (simp add: vstack_def)
  qed
qed

lemma tile_run:
  "then_do (run_numpy (block (pad_nan a) r0 (h + 2) c0 (w + 2)) az alt) (\<lambda>out. Inr (trim out))
   = Inr (tile_out a az alt (r0, h) (c0, w))"
  by (auto simp: run_numpy_eq block_def trim_def tile_out_def halo_cell_def diff1_def central_def
      fun_eq_iff)


lemma band_run:
  "(case rh of (r0, h) \<Rightarrow>
      then_do
        (collect (map (\<lambda>(c0, w).
           then_do (run_numpy (block (pad_nan a) r0 (h + 2) c0 (w + 2)) az alt)
             (\<lambda>out. Inr (trim out)))
           (starts 0 cs)))
        (\<lambda>bs. Inr (concat_cols bs)))
   = Inr (concat_cols (map (tile_out a az alt rh) (starts 0 cs)))"
proof (cases rh)
  case (Pair r0 h)
  have inner: "(\<lambda>(c0, w). then_do (run_numpy (block (pad_nan a) r0 (h + 2) c0 (w + 2)) az alt)
                   (\<lambda>out. Inr (trim out)))
               = (\<lambda>cw. Inr (tile_out a az alt (r0, h) cw))"
  proof (rule ext)
    fix cw :: "nat \<times> nat"
    show "(case cw of (c0, w) \<Rightarrow>
             then_do (run_numpy (block (pad_nan a) r0 (h + 2) c0 (w + 2)) az alt)
               (\<lambda>out. Inr (trim out)))
          = Inr (tile_out a az alt (r0, h) cw)"
      by (cases cw) (simp only: prod.case tile_run)
  qed
  show ?thesis
    unfolding Pair prod.case inner collect_Inr by simp
qed

lemma map_overlap_run_numpy:
  "map_overlap (\<lambda>t. run_numpy t az alt) rs cs a =
     Inr (concat_rows (map (\<lambda>rh. concat_cols (map (tile_out a az alt rh) (starts 0 cs)))
                           (starts 0 rs)))"
proof -
  have outer: "(\<lambda>(r0, h).
          then_do
            (collect (map (\<lambda>(c0, w).
               then_do (run_numpy (block (pad_nan a) r0 (h + 2) c0 (w + 2)) az alt)
                 (\<lambda>out. Inr (trim out)))
               (starts 0 cs)))
            (\<lambda>bs. Inr (concat_cols bs)))
      = (\<lambda>rh. Inr (concat_cols (map (tile_out a az alt rh) (starts 0 cs))))"
    by (rule ext) (rule band_run)
  show ?thesis
    unfolding map_overlap_def outer collect_Inr by simp
qed

lemma band_item:
  assumes "k < h" and "j < sum_list cs"
  shows "item (concat_cols (map (tile_out a az alt (r0, h)) (starts 0 cs))) k j
         = halo_cell a az alt (r0 + k) j"
proof -
  have "item (concat_cols (map (tile_out a az alt (r0, h)) (starts 0 cs))) k j
        = halo_cell a az alt (r0 + k) (0 + j)"
    by (rule concat_cols_item [OF _ assms(2)]) (use assms(1) in \<open>simp add: tile_out_def\<close>)
  then show ?thesis by simp
qed

lemma band_shape:
  "nrows (concat_cols (map (tile_out a az alt (r0, h)) (starts 0 (c # cs)))) = h"
  "ncols (concat_cols (map (tile_out a az alt rh) (starts 0 cs))) = sum_list cs"
  by (simp_all add: hstack_def tile_out_def concat_cols_ncols)

lemma tiled_item:
  assumes "i < sum_list rs" and "j < sum_list cs"
  shows "cell_of (map_overlap (\<lambda>t. run_numpy t az alt) rs cs a) i j
         = Inr (halo_cell a az alt i j)"
proof -
  from assms(2) obtain c cs' where cs: "cs = c # cs'" by (cases cs) auto
  have rows: "nrows (concat_cols (map (tile_out a az alt (r0, h)) (starts 0 cs))) = h" for r0 h
    by (simp add: cs hstack_def tile_out_def)
  have "item (concat_rows (map (\<lambda>rh. concat_cols (map (tile_out a az alt rh) (starts 0 cs)))
                               (starts 0 rs))) i j
        = halo_cell a az alt (0 + i) j"
    by (rule concat_rows_item [OF _ assms(1)]) (simp add: rows band_item assms(2))
  then show ?thesis by (simp add: map_overlap_run_numpy cell_of_def)
qed

lemma halo_cell_interior:
  assumes "interior a i j"
  shows "halo_cell a az alt i j =
           host_cell az alt (central (item a (i + 1) j) (item a (i - 1) j))
                            (central (item a i (j + 1)) (item a i (j - 1)))"
  using assms by (simp add: halo_cell_def pad_nan_def interior_def)


text \<open>
  C1: for a grid held as a dask array of numpy chunks, however it is chunked, and for
  every azimuth and altitude, the tiled execution (\<open>map_overlap\<close> of the host kernel
  with a halo of one cell) computes without failure, and at every interior cell of the
  grid its output is the value that the host kernel gives on the whole grid: both apply
  the same operations to the same four neighbours.
\<close>

theorem C1_tiled_equals_single_buffer:
  assumes "chunked da a" and "interior a i j"
  shows "cell_of (content (run_dask_numpy da az alt)) i j = cell_of (run_numpy a az alt) i j \<and>
         cell_of (run_numpy a az alt) i j =
           Inr (host_cell az alt (central (item a (i + 1) j) (item a (i - 1) j))
                                 (central (item a i (j + 1)) (item a i (j - 1))))"
proof -
  from assms have c: "content da = Inr a"
    and i: "i < sum_list (row_chunks da)" and j: "j < sum_list (col_chunks da)"
    by (simp_all add: chunked_def interior_def)
  have "cell_of (content (run_dask_numpy da az alt)) i j = Inr (halo_cell a az alt i j)"
    by (simp add: run_dask_numpy_def c tiled_item [OF i j])
  then show ?thesis
    by (simp add: halo_cell_interior [OF assms(2)] run_numpy_interior [OF assms(2)])
qed

theorem C1_witness:
  "chunked \<lparr>backing = NumpyChunks, row_chunks = [1, 2, 1], col_chunks = [3, 1],
            content = Inr (of_rows [[Fin 1, Fin 2, Fin 4, Fin 8],
                                    [Fin 3, Fin 5, Fin 9, Fin 7],
                                    [Fin 2, Fin 6, Fin 1, Fin 0],
                                    [Fin 4, Fin 4, Fin 3, Fin 5]])\<rparr>
      (of_rows [[Fin 1, Fin 2, Fin 4, Fin 8],
                [Fin 3, Fin 5, Fin 9, Fin 7],
                [Fin 2, Fin 6, Fin 1, Fin 0],
                [Fin 4, Fin 4, Fin 3, Fin 5]]) \<and>
   interior (of_rows [[Fin 1, Fin 2, Fin 4, Fin 8],
                      [Fin 3, Fin 5, Fin 9, Fin 7],
                      [Fin 2, Fin 6, Fin 1, Fin 0],
                      [Fin 4, Fin 4, Fin 3, Fin 5]]) 2 2 \<and>
   cell_of (content (run_dask_numpy
      \<lparr>backing = NumpyChunks, row_chunks = [1, 2, 1], col_chunks = [3, 1],
       content = Inr (of_rows [[Fin 1, Fin 2, Fin 4, Fin 8],
                               [Fin 3, Fin 5, Fin 9, Fin 7],
                               [Fin 2, Fin 6, Fin 1, Fin 0],
                               [Fin 4, Fin 4, Fin 3, Fin 5]])\<rparr> 225 25)) 2 2
   = cell_of (run_numpy (of_rows [[Fin 1, Fin 2, Fin 4, Fin 8],
                                  [Fin 3, Fin 5, Fin 9, Fin 7],
                                  [Fin 2, Fin 6, Fin 1, Fin 0],
                                  [Fin 4, Fin 4, Fin 3, Fin 5]]) 225 25) 2 2"
proof -
  let ?a = "of_rows [[Fin 1, Fin 2, Fin 4, Fin 8], [Fin 3, Fin 5, Fin 9, Fin 7],
                     [Fin 2, Fin 6, Fin 1, Fin 0], [Fin 4, Fin 4, Fin 3, Fin 5]]"
  let ?da = "\<lparr>backing = NumpyChunks, row_chunks = [1, 2, 1], col_chunks = [3, 1],
              content = Inr ?a\<rparr>"
  have c: "chunked ?da ?a" by (simp add: chunked_def of_rows_def)
  have i: "interior ?a 2 2" by (simp add: interior_def of_rows_def)
  show ?thesis using c i C1_tiled_equals_single_buffer [OF c i, of 225 25] by simp
qed

subsection \<open>The dispatcher\<close>

lemma hillshade_dask_cupy:
  "has_cuda ev \<Longrightarrow> is_cupy_backed agg \<Longrightarrow> hillshade ev agg az alt nm = Inl NotImplementedError"
  by (cases "data agg") (simp_all add: hillshade_def is_cupy_backed_def run_dask_cupy_def)

lemma hillshade_other:
  "data agg = OtherData \<Longrightarrow> hillshade ev agg az alt nm = Inl TypeError"
  by (simp add: hillshade_def)

lemma hillshade_cupy_no_cuda:
  "\<not> has_cuda ev \<Longrightarrow> is_cupy_ndarray (data agg) \<Longrightarrow> hillshade ev agg az alt nm = Inl TypeError"
  by (cases "data agg") (simp_all add: hillshade_def)

text \<open>
  C5 (as stated: every input whose data is a cupy-backed dask array makes the dispatcher
  raise the unimplemented-combination failure). It fails when \<open>has_cuda()\<close> is false:
  the test of the third branch fails, the fourth branch takes every dask array, and
  \<open>_run_dask_numpy\<close> returns a dask array.
\<close>

theorem C5_counterexample:
  "failure_of (hillshade
      \<lparr>has_cuda = False, cuda_args = (\<lambda>sh. (sh, (1, 1))), uninit = (\<lambda>i j. Fin 7)\<rparr>
      \<lparr>data = DaskArray \<lparr>backing = CupyChunks, row_chunks = [3], col_chunks = [3],
                          content = Inr (full 3 3 (Fin 0))\<rparr>,
       name = None, coords = (), dims = [''y'', ''x''], attrs = ()\<rparr>
      225 25 (Some ''hillshade'')) = None"
  by (simp add: hillshade_def is_cupy_backed_def failure_of_def)

text \<open>
  C5 (amended): when an accelerator is present (\<open>has_cuda()\<close> holds), every input whose
  data is a cupy-backed dask array makes the dispatcher raise \<open>NotImplementedError\<close>;
  every input whose data is of an unrecognised storage kind makes it raise \<open>TypeError\<close>,
  with or without an accelerator. In both cases the outcome is the failure alone, for
  every grid content and every azimuth, altitude and name: no kernel runs and no output
  is produced.
\<close>

theorem C5_rejected_inputs:
  "(has_cuda ev \<and> is_cupy_backed agg \<longrightarrow>
      hillshade ev agg az alt nm = Inl NotImplementedError) \<and>
   (data agg = OtherData \<longrightarrow> hillshade ev agg az alt nm = Inl TypeError)"
  by (simp add: hillshade_dask_cupy hillshade_other)

theorem C5_witness:
  "has_cuda \<lparr>has_cuda = True, cuda_args = (\<lambda>sh. (sh, (1, 1))), uninit = (\<lambda>i j. Fin 7)\<rparr> \<and>
   is_cupy_backed
     \<lparr>data = DaskArray \<lparr>backing = CupyChunks, row_chunks = [3], col_chunks = [3],
                         content = Inr (full 3 3 (Fin 0))\<rparr>,
      name = None, coords = (), dims = [''y'', ''x''], attrs = ()\<rparr> \<and>
   hillshade \<lparr>has_cuda = True, cuda_args = (\<lambda>sh. (sh, (1, 1))), uninit = (\<lambda>i j. Fin 7)\<rparr>
     \<lparr>data = DaskArray \<lparr>backing = CupyChunks, row_chunks = [3], col_chunks = [3],
                         content = Inr (full 3 3 (Fin 0))\<rparr>,
      name = None, coords = (), dims = [''y'', ''x''], attrs = ()\<rparr>
     225 25 (Some ''hillshade'') = Inl NotImplementedError \<and>
   hillshade \<lparr>has_cuda = False, cuda_args = (\<lambda>sh. (sh, (1, 1))), uninit = (\<lambda>i j. Fin 7)\<rparr>
     \<lparr>data = OtherData, name = None, coords = (), dims = [''y'', ''x''], attrs = ()\<rparr>
     225 25 (Some ''hillshade'') = Inl TypeError"
  using C5_rejected_inputs [of
      "\<lparr>has_cuda = True, cuda_args = (\<lambda>sh. (sh, (1, 1))), uninit = (\<lambda>i j. Fin 7)\<rparr>"
      "\<lparr>data = DaskArray \<lparr>backing = CupyChunks, row_chunks = [3], col_chunks = [3],
                          content = Inr (full 3 3 (Fin 0))\<rparr>,
        name = None, coords = (), dims = [''y'', ''x''], attrs = ()\<rparr>" 225 25 "Some ''hillshade''"]
    C5_rejected_inputs [of
      "\<lparr>has_cuda = False, cuda_args = (\<lambda>sh. (sh, (1, 1))), uninit = (\<lambda>i j. Fin 7)\<rparr>"
      "\<lparr>data = OtherData, name = None, coords = (), dims = [''y'', ''x''], attrs = ()\<rparr>"
      225 25 "Some ''hillshade''"]
  by (simp add: is_cupy_backed_def)

text \<open>
  C8 (as stated: a device-resident input without an accelerator fails with an
  accelerator-unavailable error that is distinct from the unsupported-type failure). It
  fails: the module has no such error; with \<open>has_cuda()\<close> false a cupy array passes
  every test of the dispatcher and reaches the final \<open>TypeError\<close>, the unsupported-type
  failure itself.
\<close>

theorem C8_counterexample:
  "hillshade \<lparr>has_cuda = False, cuda_args = (\<lambda>sh. (sh, (1, 1))), uninit = (\<lambda>i j. Fin 7)\<rparr>
     \<lparr>data = CupyArray (full 3 3 (Fin 0)), name = None, coords = (), dims = [''y'', ''x''],
      attrs = ()\<rparr>
     225 25 (Some ''hillshade'') = Inl TypeError"
  by (simp add: hillshade_def)

text \<open>
  C8 (amended): for every input whose data is a cupy array, when no accelerator is
  present, the operation fails with \<open>TypeError\<close> (the unsupported-type failure); the
  outcome is the failure alone, so no kernel is launched.
\<close>

theorem C8_no_accelerator:
  assumes "\<not> has_cuda ev" and "is_cupy_ndarray (data agg)"
  shows "hillshade ev agg az alt nm = Inl TypeError"
  using assms by (rule hillshade_cupy_no_cuda)

theorem C8_witness:
  "\<not> has_cuda \<lparr>has_cuda = False, cuda_args = (\<lambda>sh. (sh, (2, 2))), uninit = (\<lambda>i j. NaN)\<rparr> \<and>
   is_cupy_ndarray (data \<lparr>data = CupyArray (full 4 5 (Fin 1)), name = None, coords = (),
                           dims = [''y'', ''x''], attrs = ()\<rparr>) \<and>
   hillshade \<lparr>has_cuda = False, cuda_args = (\<lambda>sh. (sh, (2, 2))), uninit = (\<lambda>i j. NaN)\<rparr>
     \<lparr>data = CupyArray (full 4 5 (Fin 1)), name = None, coords = (), dims = [''y'', ''x''],
      attrs = ()\<rparr> 0 45 None = Inl TypeError"
proof -
  let ?ev = "\<lparr>has_cuda = False, cuda_args = (\<lambda>sh. (sh, (2, 2))), uninit = (\<lambda>i j. NaN)\<rparr>"
  let ?agg = "\<lparr>data = CupyArray (full 4 5 (Fin 1)), name = None, coords = (),
                dims = [''y'', ''x''], attrs = ()\<rparr>"
  have h: "\<not> has_cuda ?ev" by simp
  have c: "is_cupy_ndarray (data ?agg)" by simp
  show ?thesis using h c C8_no_accelerator [OF h c, of 0 45 None] by simp
qed

subsection \<open>Host formula and device formula\<close>

lemma arctan_partial_sums:
  fixes x :: real
  assumes "0 \<le> x" and "x \<le> 1"
  shows "(\<Sum>k<2 * n. (- 1) ^ k * (1 / real (k * 2 + 1) * x ^ (k * 2 + 1))) \<le> arctan x"
    and "arctan x \<le> (\<Sum>k<2 * n + 1. (- 1) ^ k * (1 / real (k * 2 + 1) * x ^ (k * 2 + 1)))"
proof -
  let ?a = "\<lambda>k. 1 / real (k * 2 + 1) * x ^ (k * 2 + 1)"
  have z: "?a \<longlonglongrightarrow> 0"
    using assms by (intro zeroseq_arctan_series) simp
  have p: "0 \<le> ?a k" for k
    using assms by simp
  have m: "?a (Suc k) \<le> ?a k" for k
  proof (rule mult_mono)
    show "1 / real (Suc k * 2 + 1) \<le> 1 / real (k * 2 + 1)"
      by (simp add: field_simps)
    show "x ^ (Suc k * 2 + 1) \<le> x ^ (k * 2 + 1)"
      using assms by (intro power_decreasing) simp_all
    show "0 \<le> 1 / real (k * 2 + 1)" by simp
    show "0 \<le> x ^ (Suc k * 2 + 1)" using assms by simp
  qed
  have s: "arctan x = (\<Sum>k. (- 1) ^ k * ?a k)"
    using assms by (intro arctan_series) simp
  show "(\<Sum>k<2 * n. (- 1) ^ k * ?a k) \<le> arctan x"
    unfolding s by (rule summable_Leibniz'(2) [OF z p m])
  show "arctan x \<le> (\<Sum>k<2 * n + 1. (- 1) ^ k * ?a k)"
    unfolding s by (rule summable_Leibniz'(4) [OF z p m])
qed

lemma pi_bounds: "3.14159265358 < pi" "pi < 3.1415926536"
proof -
  have e: "pi = 20 * arctan (1 / 7) + 8 * arctan (3 / 79)"
    using machin_Euler by simp
  have l1: "(\<Sum>k<2 * 4. (- 1) ^ k * (1 / real (k * 2 + 1) * (1 / 7) ^ (k * 2 + 1))) \<le> arctan (1 / 7)"
    by (rule arctan_partial_sums) simp_all
  have l2: "(\<Sum>k<2 * 2. (- 1) ^ k * (1 / real (k * 2 + 1) * (3 / 79) ^ (k * 2 + 1))) \<le> arctan (3 / 79)"
    by (rule arctan_partial_sums) simp_all
  have u1: "arctan (1 / 7) \<le> (\<Sum>k<2 * 3 + 1. (- 1) ^ k * (1 / real (k * 2 + 1) * (1 / 7) ^ (k * 2 + 1)))"
    by (rule arctan_partial_sums) simp_all
  have u2: "arctan (3 / 79) \<le> (\<Sum>k<2 * 2 + 1. (- 1) ^ k * (1 / real (k * 2 + 1) * (3 / 79) ^ (k * 2 + 1)))"
    by (rule arctan_partial_sums) simp_all
  show "3.14159265358 < pi"
    unfolding e using l1 l2 by (simp add: eval_nat_numeral)
  show "pi < 3.1415926536"
    unfolding e using u1 u2 by (simp add: eval_nat_numeral)
qed


lemma fmul_half: "fmul v (Fin (1 / 2)) = fdiv_pos v 2"
  by (cases v) (simp_all add: inf_times_def)

lemma gpu_cell_with_half_pi:
  "gpu_cell_with (pi / 2) (sin (alt * pi / 180)) (cos (alt * pi / 180)) ((360 - az) * pi / 180) x y
   = host_cell az alt x y"
  by (simp add: gpu_cell_with_def host_cell_def fmul_half)

lemma abs_sin_diff_le: "\<bar>sin u - sin v\<bar> \<le> \<bar>u - v\<bar>" for u v :: real
proof -
  have "\<bar>sin u - sin v\<bar> = 2 * \<bar>sin ((u - v) / 2)\<bar> * \<bar>cos ((u + v) / 2)\<bar>"
    by (simp add: sin_diff_sin abs_mult)
  also have "\<dots> \<le> 2 * \<bar>(u - v) / 2\<bar> * 1"
    by (intro mult_mono abs_sin_x_le_abs_x) simp_all
  finally show ?thesis by simp
qed

lemma abs_cos_diff_le: "\<bar>cos u - cos v\<bar> \<le> \<bar>u - v\<bar>" for u v :: real
proof -
  have "\<bar>cos u - cos v\<bar> = 2 * \<bar>sin ((u + v) / 2)\<bar> * \<bar>sin ((v - u) / 2)\<bar>"
    by (simp add: cos_diff_cos abs_mult)
  also have "\<dots> \<le> 2 * 1 * \<bar>(v - u) / 2\<bar>"
    by (intro mult_mono abs_sin_x_le_abs_x) simp_all
  finally show ?thesis by simp
qed

lemma shade_lipschitz:
  assumes "\<bar>sa\<bar> \<le> 1" and "\<bar>ca\<bar> \<le> 1"
  shows "\<bar>shade h sa ca azr r t - shade h' sa ca azr r t\<bar> \<le> 3 * \<bar>h - h'\<bar>"
proof -
  let ?d = "\<bar>h - h'\<bar>"
  have s: "\<bar>sin (h - r) - sin (h' - r)\<bar> \<le> ?d"
    using abs_sin_diff_le [of "h - r" "h' - r"] by simp
  have c1: "\<bar>cos (h - r) - cos (h' - r)\<bar> \<le> ?d"
    using abs_cos_diff_le [of "h - r" "h' - r"] by simp
  have c2: "\<bar>cos (azr - h - t) - cos (azr - h' - t)\<bar> \<le> ?d"
    using abs_cos_diff_le [of "azr - h - t" "azr - h' - t"] by simp
  have p: "\<bar>cos (h - r) * cos (azr - h - t) - cos (h' - r) * cos (azr - h' - t)\<bar> \<le> 2 * ?d"
  proof -
    have "cos (h - r) * cos (azr - h - t) - cos (h' - r) * cos (azr - h' - t)
          = (cos (h - r) - cos (h' - r)) * cos (azr - h - t)
            + cos (h' - r) * (cos (azr - h - t) - cos (azr - h' - t))"
      by (simp add: algebra_simps)
    also have "\<bar>\<dots>\<bar> \<le> \<bar>(cos (h - r) - cos (h' - r)) * cos (azr - h - t)\<bar>
            + \<bar>cos (h' - r) * (cos (azr - h - t) - cos (azr - h' - t))\<bar>"
      by (rule abs_triangle_ineq)
    also have "\<dots> \<le> ?d * 1 + 1 * ?d"
      unfolding abs_mult by (intro add_mono mult_mono c1 c2) simp_all
    finally show ?thesis by simp
  qed
  have "shade h sa ca azr r t - shade h' sa ca azr r t
        = sa * (sin (h - r) - sin (h' - r))
          + ca * (cos (h - r) * cos (azr - h - t) - cos (h' - r) * cos (azr - h' - t))"
    by (simp add: shade_def algebra_simps)
  also have "\<bar>\<dots>\<bar> \<le> \<bar>sa * (sin (h - r) - sin (h' - r))\<bar>
          + \<bar>ca * (cos (h - r) * cos (azr - h - t) - cos (h' - r) * cos (azr - h' - t))\<bar>"
    by (rule abs_triangle_ineq)
  also have "\<dots> \<le> 1 * ?d + 1 * (2 * ?d)"
    unfolding abs_mult by (intro add_mono mult_mono assms s p) simp_all
  finally show ?thesis by simp
qed

lemma gpu_cell_with_finite:
  "gpu_cell_with h sa ca azr (Fin a) (Fin b)
   = Fin ((shade h sa ca azr (arctan (sqrt (a * a + b * b))) (arctan2 (- a) b) + 1) / 2)"
proof -
  have "\<not> a * a + b * b < 0" by (simp add: not_less)
  then show ?thesis
    by (simp add: gpu_cell_with_def fsub_def shade_def)
qed


lemma round_half_even_close: "\<bar>of_int (round_half_even x) - x\<bar> \<le> 1 / 2"
proof -
  have "of_int \<lfloor>x\<rfloor> \<le> x" "x < of_int \<lfloor>x\<rfloor> + 1" by linarith+
  then show ?thesis
    by (auto simp: round_half_even_def Let_def)
qed

lemma three_not_dvd_power2: "\<not> (3::int) dvd 2 ^ n"
proof -
  have "(2::int) ^ n mod 3 = 1 \<or> (2::int) ^ n mod 3 = 2"
  proof (induction n)
    case 0
    show ?case by simp
  next
    case (Suc n)
    have "(2::int) ^ Suc n mod 3 = (2 * (2 ^ n mod 3)) mod 3"
      by (simp add: mod_mult_right_eq)
    with Suc show ?case by auto
  qed
  then show ?thesis by (auto simp: dvd_eq_mod_eq_0)
qed

lemma power_int_2_cases:
  "power_int (2::real) k = (if 0 \<le> k then 2 ^ nat k else 1 / 2 ^ nat (- k))"
  by (simp add: power_int_def power_one_over inverse_eq_divide)

lemma dyadic_not_two_thirds: "of_int n * power_int 2 k \<noteq> (2 / 3 :: real)"
proof
  assume e: "of_int n * power_int 2 k = (2 / 3 :: real)"
  show False
  proof (cases "0 \<le> k")
    case True
    then have "of_int n * 2 ^ nat k = (2 / 3 :: real)"
      using e by (simp add: power_int_2_cases)
    then have "(of_int (3 * n * 2 ^ nat k) :: real) = of_int 2" by simp
    then have "3 * n * 2 ^ nat k = 2" by (simp only: of_int_eq_iff)
    then have "(3::int) dvd 2" by (metis dvd_triv_left mult.assoc)
    then show False by simp
  next
    case False
    then have "of_int n * (1 / 2 ^ nat (- k)) = (2 / 3 :: real)"
      using e by (simp add: power_int_2_cases)
    then have "(of_int (3 * n) :: real) = of_int (2 * 2 ^ nat (- k))"
      by (simp add: field_simps)
    then have "3 * n = 2 * 2 ^ nat (- k)" by (simp only: of_int_eq_iff)
    then have "(3::int) dvd 2 ^ Suc (nat (- k))" by (metis dvd_triv_left power_Suc)
    then show False using three_not_dvd_power2 by blast
  qed
qed

lemma round32_not_two_thirds: "round32 v \<noteq> 2 / 3"
proof (cases "v = 0")
  case True
  then show ?thesis by (simp add: round32_def)
next
  case False
  then show ?thesis
    unfolding round32_def Let_def by (simp only: if_False dyadic_not_two_thirds not_False_eq_True)
qed

lemma to_float32_not_two_thirds: "to_float32 x \<noteq> Fin (2 / 3)"
proof (cases x)
  case (Fin v)
  show ?thesis
    unfolding Fin to_float32.simps Let_def
    using round32_not_two_thirds [of v] by (simp only: fval.inject fval.distinct split: if_splits) auto
qed simp_all

lemma power_int_floor_log_le:
  assumes "v \<noteq> 0"
  shows "power_int 2 \<lfloor>log 2 \<bar>v\<bar>\<rfloor> \<le> \<bar>v\<bar>"
proof -
  have "power_int 2 \<lfloor>log 2 \<bar>v\<bar>\<rfloor> = (2::real) powr of_int \<lfloor>log 2 \<bar>v\<bar>\<rfloor>"
    by (simp add: powr_real_of_int power_int_2_cases inverse_eq_divide)
  also have "\<dots> \<le> 2 powr log 2 \<bar>v\<bar>"
    by (intro powr_mono) simp_all
  also have "\<dots> = \<bar>v\<bar>" using assms by simp
  finally show ?thesis .
qed

lemma round32_error:
  assumes "\<bar>v\<bar> \<le> 3 / 2"
  shows "\<bar>round32 v - v\<bar> \<le> 3 / 2 ^ 25"
proof (cases "v = 0")
  case True
  then show ?thesis by (simp add: round32_def)
next
  case False
  define e where "e = max \<lfloor>log 2 \<bar>v\<bar>\<rfloor> (- 126)"
  define q :: real where "q = power_int 2 (e - 23)"
  have q0: "0 < q" by (simp add: q_def)
  have r: "round32 v = of_int (round_half_even (v / q)) * q"
    using False by (simp add: round32_def Let_def e_def q_def)
  have "power_int 2 e \<le> (3 / 2 :: real)"
  proof (cases "\<lfloor>log 2 \<bar>v\<bar>\<rfloor> \<le> - 126")
    case True
    then have "e = - 126" by (simp add: e_def)
    then show ?thesis by (simp add: power_int_2_cases)
  next
    case False
    then have "e = \<lfloor>log 2 \<bar>v\<bar>\<rfloor>" by (simp add: e_def)
    then show ?thesis
      using power_int_floor_log_le [OF \<open>v \<noteq> 0\<close>] assms by simp
  qed
  moreover have "q = power_int 2 e / 2 ^ 23"
    by (simp add: q_def power_int_diff)
  ultimately have q: "q \<le> 3 / 2 ^ 24" by simp
  have "round32 v - v = (of_int (round_half_even (v / q)) - v / q) * q"
    using q0 by (simp add: r algebra_simps)
  then have "\<bar>round32 v - v\<bar> = \<bar>of_int (round_half_even (v / q)) - v / q\<bar> * q"
    using q0 by (simp add: abs_mult)
  also have "\<dots> \<le> 1 / 2 * q"
    using q0 by (intro mult_right_mono round_half_even_close) simp
  also have "\<dots> \<le> 3 / 2 ^ 25" using q by simp
  finally show ?thesis .
qed


lemma stored_arith:
  fixes u h d r :: real
  shows "\<bar>u\<bar> \<le> 2 \<Longrightarrow> \<bar>(u + 1) / 2\<bar> \<le> 3 / 2"
    and "\<bar>d\<bar> \<le> 3 / 2 \<Longrightarrow> \<bar>r - d\<bar> \<le> 3 / 2 ^ 25 \<Longrightarrow> \<bar>r\<bar> < 2 ^ 128"
    and "\<bar>h - d\<bar> < 15 / 10 ^ 12 \<Longrightarrow> \<bar>r - d\<bar> \<le> 3 / 2 ^ 25 \<Longrightarrow> \<bar>h - r\<bar> < 1 / 10 ^ 7"
proof -
  have small: "(3 / 2 ^ 25 :: real) < 9 / 10 ^ 8" by simp
  show "\<bar>u\<bar> \<le> 2 \<Longrightarrow> \<bar>(u + 1) / 2\<bar> \<le> 3 / 2"
    by (simp add: abs_le_iff)
  show "\<bar>r\<bar> < 2 ^ 128" if "\<bar>d\<bar> \<le> 3 / 2" and "\<bar>r - d\<bar> \<le> 3 / 2 ^ 25"
  proof -
    have "\<bar>r\<bar> \<le> \<bar>r - d\<bar> + \<bar>d\<bar>" by linarith
    also have "\<dots> < 9 / 10 ^ 8 + 3 / 2" using that small by linarith
    also have "\<dots> < 2 ^ 128" by simp
    finally show ?thesis .
  qed
  show "\<bar>h - r\<bar> < 1 / 10 ^ 7" if "\<bar>h - d\<bar> < 15 / 10 ^ 12" and "\<bar>r - d\<bar> \<le> 3 / 2 ^ 25"
  proof -
    have "\<bar>h - r\<bar> \<le> \<bar>h - d\<bar> + \<bar>r - d\<bar>" by linarith
    also have "\<dots> < 15 / 10 ^ 12 + 9 / 10 ^ 8" using that small by linarith
    also have "\<dots> < 1 / 10 ^ 7" by simp
    finally show ?thesis .
  qed
qed

lemma shade_bound:
  assumes "\<bar>sa\<bar> \<le> 1" and "\<bar>ca\<bar> \<le> 1"
  shows "\<bar>shade h sa ca azr r t\<bar> \<le> 2"
proof -
  have "\<bar>sa * sin (h - r)\<bar> \<le> 1 * 1"
    unfolding abs_mult by (intro mult_mono assms) simp_all
  moreover have "\<bar>ca * cos (h - r) * cos (azr - h - t)\<bar> \<le> 1 * 1 * 1"
    unfolding abs_mult by (intro mult_mono assms) simp_all
  ultimately show ?thesis
    unfolding shade_def by linarith
qed

lemma cos_arctan_sqrt8: "cos (arctan (sqrt 8)) = 1 / 3"
proof -
  have "sqrt 9 = \<bar>3::real\<bar>" using real_sqrt_abs [of 3] by simp
  then show ?thesis by (simp add: cos_arctan)
qed

lemma host_cell_alt90:
  "host_cell 225 90 (Fin 2) (Fin 2) = Fin (2 / 3)"
proof -
  have "host_cell 225 90 (Fin 2) (Fin 2)
        = gpu_cell_with (pi / 2) (sin (90 * pi / 180)) (cos (90 * pi / 180))
            ((360 - 225) * pi / 180) (Fin 2) (Fin 2)"
    by (rule gpu_cell_with_half_pi [symmetric])
  also have "\<dots> = Fin ((cos (arctan (sqrt 8)) + 1) / 2)"
    by (simp add: gpu_cell_with_finite shade_def sin_diff)
  finally show ?thesis by (simp add: cos_arctan_sqrt8)
qed

lemma gpu_cell_alt90:
  "gpu_cell (sin (90 * pi / 180)) (cos (90 * pi / 180)) ((360 - 225) * pi / 180) (Fin 2) (Fin 2)
   = Fin ((sin (1.57079632679 - arctan (sqrt 8)) + 1) / 2)"
  by (simp add: gpu_cell_def gpu_cell_with_finite shade_def)

lemma sin_literal_slope_less: "sin (1.57079632679 - arctan (sqrt 8)) < 1 / 3"
proof -
  let ?c = "1.57079632679 :: real" and ?r = "arctan (sqrt 8)"
  have r: "0 \<le> ?r" "?r < pi / 2" using arctan_ubound [of "sqrt 8"] by simp_all
  have c: "?c < pi / 2" using pi_bounds(1) by simp
  have "sin (?c - ?r) < sin (pi / 2 - ?r)"
    using r c by (intro sin_monotone_2pi) simp_all
  also have "\<dots> = cos ?r" by (simp add: sin_diff)
  finally show ?thesis by (simp add: cos_arctan_sqrt8)
qed

text \<open>
  C4 (as stated: the device kernel's folded form is algebraically equal to the host form,
  so that from the same gradients both kernels compute the same illumination value). It
  fails. On the grid below the interior cell has the gradients \<open>x = y = 2\<close>; lit from
  altitude 90 the host kernel gives \<open>2/3\<close> there. The device kernel writes
  \<open>1.57079632679\<close> where the host kernel has \<open>np.pi/2.\<close>, so the value it computes is
  smaller than \<open>2/3\<close>; and it stores that value as \<open>float32\<close>, which \<open>2/3\<close> is not.
\<close>

theorem C4_counterexample:
  "cell_of (run_numpy (of_rows [[Fin 0, Fin 2, Fin 4],
                                [Fin 2, Fin 4, Fin 6],
                                [Fin 4, Fin 6, Fin 8]]) 225 90) 1 1 = Inr (Fin (2 / 3)) \<and>
   cell_of (run_cupy \<lparr>has_cuda = True, cuda_args = (\<lambda>sh. (sh, (1, 1))), uninit = (\<lambda>i j. Fin 0)\<rparr>
              (of_rows [[Fin 0, Fin 2, Fin 4],
                        [Fin 2, Fin 4, Fin 6],
                        [Fin 4, Fin 6, Fin 8]]) 225 90) 1 1 \<noteq> Inr (Fin (2 / 3)) \<and>
   gpu_cell (sin (90 * pi / 180)) (cos (90 * pi / 180)) ((360 - 225) * pi / 180) (Fin 2) (Fin 2)
     \<noteq> host_cell 225 90 (Fin 2) (Fin 2)"
proof -
  let ?g = "of_rows [[Fin 0, Fin 2, Fin 4], [Fin 2, Fin 4, Fin 6], [Fin 4, Fin 6, Fin 8]]"
  let ?ev = "\<lparr>has_cuda = True, cuda_args = (\<lambda>sh. (sh, (1, 1))), uninit = (\<lambda>i j. Fin 0)\<rparr>"
  have i: "interior ?g 1 1" by (simp add: interior_def of_rows_def)
  have x: "central (item ?g (1 + 1) 1) (item ?g (1 - 1) 1) = Fin 2"
    by (simp add: of_rows_def central_def fsub_def)
  have y: "central (item ?g 1 (1 + 1)) (item ?g 1 (1 - 1)) = Fin 2"
    by (simp add: of_rows_def central_def fsub_def)
  have host: "cell_of (run_numpy ?g 225 90) 1 1 = Inr (Fin (2 / 3))"
    unfolding run_numpy_interior [OF i] x y host_cell_alt90 ..
  have l: "launched (cuda_args ?ev (nrows ?g, ncols ?g)) 1 1"
    by (simp add: launched_def of_rows_def)
  have "cell_of (run_cupy ?ev ?g 225 90) 1 1
        = Inr (gpu_stored (sin (90 * pi / 180)) (cos (90 * pi / 180)) ((360 - 225) * pi / 180)
                 (central (item ?g (1 + 1) 1) (item ?g (1 - 1) 1))
                 (central (item ?g 1 (1 + 1)) (item ?g 1 (1 - 1))))"
    unfolding run_cupy_cell using i l by (simp add: of_rows_def)
  then have dev: "cell_of (run_cupy ?ev ?g 225 90) 1 1 \<noteq> Inr (Fin (2 / 3))"
    unfolding x y gpu_stored_def by (simp add: to_float32_not_two_thirds)
  have pre: "gpu_cell (sin (90 * pi / 180)) (cos (90 * pi / 180)) ((360 - 225) * pi / 180)
               (Fin 2) (Fin 2) \<noteq> host_cell 225 90 (Fin 2) (Fin 2)"
    unfolding gpu_cell_alt90 host_cell_alt90 using sin_literal_slope_less by simp
  from host dev pre show ?thesis by blast
qed

text \<open>
  C4 (amended): with \<open>pi / 2\<close> in place of the literal \<open>1.57079632679\<close>, the device
  kernel's formula with the folded aspect is equal to the host kernel's formula over
  exact real arithmetic, for all gradients and lighting constants. With the literal as
  written, from the same finite gradients and over exact real arithmetic, the value that
  the device kernel computes is less than \<open>1.5e-11\<close> away from the value of the host
  formula, and the \<open>float32\<close> value that it stores is less than \<open>1e-7\<close> away from it.
\<close>

theorem C4_folded_aspect:
  "gpu_cell_with (pi / 2) (sin (alt * pi / 180)) (cos (alt * pi / 180)) ((360 - az) * pi / 180) x y
     = host_cell az alt x y \<and>
   (\<exists>h d s. host_cell az alt (Fin a) (Fin b) = Fin h \<and>
          gpu_cell (sin (alt * pi / 180)) (cos (alt * pi / 180)) ((360 - az) * pi / 180)
            (Fin a) (Fin b) = Fin d \<and>
          gpu_stored (sin (alt * pi / 180)) (cos (alt * pi / 180)) ((360 - az) * pi / 180)
            (Fin a) (Fin b) = Fin s \<and>
          \<bar>h - d\<bar> < 15 / 10 ^ 12 \<and> \<bar>h - s\<bar> < 1 / 10 ^ 7)"
proof -
  let ?sa = "sin (alt * pi / 180)" and ?ca = "cos (alt * pi / 180)"
  let ?azr = "(360 - az) * pi / 180"
  let ?r = "arctan (sqrt (a * a + b * b))" and ?t = "arctan2 (- a) b"
  let ?c = "1.57079632679 :: real"
  let ?h = "(shade (pi / 2) ?sa ?ca ?azr ?r ?t + 1) / 2"
  let ?d = "(shade ?c ?sa ?ca ?azr ?r ?t + 1) / 2"
  have eq: "gpu_cell_with (pi / 2) ?sa ?ca ?azr x y = host_cell az alt x y" for x y
    by (rule gpu_cell_with_half_pi)
  have h: "host_cell az alt (Fin a) (Fin b) = Fin ?h"
    unfolding eq [symmetric] by (rule gpu_cell_with_finite)
  have d: "gpu_cell ?sa ?ca ?azr (Fin a) (Fin b) = Fin ?d"
    unfolding gpu_cell_def by (rule gpu_cell_with_finite)
  have "\<bar>shade (pi / 2) ?sa ?ca ?azr ?r ?t - shade ?c ?sa ?ca ?azr ?r ?t\<bar> \<le> 3 * \<bar>pi / 2 - ?c\<bar>"
    by (rule shade_lipschitz) simp_all
  also have "\<dots> < 3 / 10 ^ 11"
    using pi_bounds by simp
  finally have hd: "\<bar>?h - ?d\<bar> < 15 / 10 ^ 12"
    by (simp add: abs_if field_simps split: if_splits)
  have "\<bar>shade ?c ?sa ?ca ?azr ?r ?t\<bar> \<le> 2"
    by (rule shade_bound) simp_all
  then have db: "\<bar>?d\<bar> \<le> 3 / 2" by (rule stored_arith(1))
  have err: "\<bar>round32 ?d - ?d\<bar> \<le> 3 / 2 ^ 25" by (rule round32_error [OF db])
  have "\<bar>round32 ?d\<bar> < 2 ^ 128" by (rule stored_arith(2) [OF db err])
  then have s: "gpu_stored ?sa ?ca ?azr (Fin a) (Fin b) = Fin (round32 ?d)"
    unfolding gpu_stored_def d by (simp add: Let_def)
  have hs: "\<bar>?h - round32 ?d\<bar> < 1 / 10 ^ 7"
    by (rule stored_arith(3) [OF hd err])
  from eq h d s hd hs show ?thesis by blast
qed


subsection \<open>Shape and element type of the host kernel's output\<close>

lemma min_scalar_type_small: "\<bar>v\<bar> \<le> 4 \<Longrightarrow> min_scalar_type v = Float16"
  by (simp add: min_scalar_type_def abs_le_iff)

lemma promote_same: "promote a a = a"
  by (simp add: promote_def)

lemma promote_Float64_scalar: "promote Float64 (min_scalar_type v) = Float64"
  by (simp add: promote_def min_scalar_type_def)

lemma half_pi_small: "\<bar>pi / 2\<bar> \<le> 4" "\<bar>(360 - 225) * pi / 180 - pi / 2\<bar> \<le> 4"
  using pi_gt_zero pi_less_4 by (simp_all add: abs_le_iff)

lemma sin_cos_small: "\<bar>sin (v :: real)\<bar> \<le> 4" "\<bar>cos (v :: real)\<bar> \<le> 4"
  using abs_sin_le_one [of v] abs_cos_le_one [of v] by linarith+

text \<open>
  C9 (as stated: the output has the input's shape and its element type is double
  precision whatever the floating-point type of the input). The element type fails:
  the code has no cast, so under numpy 1.x a \<open>float32\<close> grid gives a \<open>float32\<close> result
  (at the default azimuth and altitude), and under the rules of numpy 2 a \<open>longdouble\<close>
  grid gives a \<open>longdouble\<close> result.
\<close>

theorem C9_counterexample:
  "run_numpy_dtype ValueBased 225 25 Float32 = Float32 \<and>
   run_numpy_dtype NumPy2 225 25 LongDouble = LongDouble"
proof -
  have "run_numpy_dtype ValueBased 225 25 Float32 = Float32"
    unfolding run_numpy_dtype_def Let_def with_py_scalar.simps with_float64_scalar.simps
      min_scalar_type_small [OF half_pi_small(1)] min_scalar_type_small [OF half_pi_small(2)]
      min_scalar_type_small [OF sin_cos_small(1)] min_scalar_type_small [OF sin_cos_small(2)]
    by (simp add: promote_def with_small_int_def)
  moreover have "run_numpy_dtype NumPy2 225 25 LongDouble = LongDouble"
    by (simp add: run_numpy_dtype_def promote_def with_small_int_def)
  ultimately show ?thesis ..
qed

text \<open>
  C9 (amended): for every grid of shape \<open>(R, C)\<close> with \<open>R, C \<ge> 2\<close> the host kernel's
  output has shape \<open>(R, C)\<close>, and its element type is double precision when the input
  grid's element type is double precision, for every azimuth and altitude and under
  either rule set.
\<close>

theorem C9_shape_and_dtype:
  assumes "2 \<le> nrows d" and "2 \<le> ncols d"
  shows "shape_of (run_numpy d az alt) = Inr (nrows d, ncols d) \<and>
         run_numpy_dtype p az alt Float64 = Float64"
proof -
  have "run_numpy_dtype p az alt Float64 = Float64"
    by (cases p)
      (simp_all add: run_numpy_dtype_def Let_def promote_same promote_Float64_scalar
        with_small_int_def)
  then show ?thesis
    using assms by (simp add: run_numpy_shape)
qed

theorem C9_witness:
  "2 \<le> nrows (full 2 5 (Fin 3)) \<and> 2 \<le> ncols (full 2 5 (Fin 3)) \<and>
   shape_of (run_numpy (full 2 5 (Fin 3)) 225 25) = Inr (2, 5) \<and>
   run_numpy_dtype ValueBased 225 25 Float64 = Float64"
proof -
  have r: "2 \<le> nrows (full 2 5 (Fin 3))" and c: "2 \<le> ncols (full 2 5 (Fin 3))"
    by (simp_all add: full_def)
  show ?thesis
    using r c C9_shape_and_dtype [OF r c, of 225 25 ValueBased] by (simp add: full_def)
qed

subsection \<open>Small grids\<close>

lemma halo_cell_one_row: "nrows a = 1 \<Longrightarrow> halo_cell a az alt 0 j = NaN"
  by (simp add: halo_cell_def pad_nan_def)

text \<open>
  C7: a grid with fewer than two rows or columns should give an all-undefined output of
  the same shape and no failure. The host kernel does not do that: on a grid of one row
  and three columns its first step, \<open>np.gradient\<close>, raises \<open>ValueError\<close>. The two other
  paths do on the same grid what the claim says: the device path and the tiled path
  both return a grid of shape \<open>(1, 3)\<close> whose cells are all not-a-number.
\<close>

theorem C7_failing_input:
  "run_numpy (of_rows [[Fin 1, Fin 2, Fin 3]]) 225 25 = Inl ValueError \<and>
   shape_of (run_cupy \<lparr>has_cuda = True, cuda_args = (\<lambda>sh. (sh, (1, 1))), uninit = (\<lambda>i j. Fin 7)\<rparr>
               (of_rows [[Fin 1, Fin 2, Fin 3]]) 225 25) = Inr (1, 3) \<and>
   map (cell_of (run_cupy \<lparr>has_cuda = True, cuda_args = (\<lambda>sh. (sh, (1, 1))),
                           uninit = (\<lambda>i j. Fin 7)\<rparr>
                   (of_rows [[Fin 1, Fin 2, Fin 3]]) 225 25) 0) [0, 1, 2]
     = [Inr NaN, Inr NaN, Inr NaN] \<and>
   shape_of (content (run_dask_numpy
               \<lparr>backing = NumpyChunks, row_chunks = [1], col_chunks = [3],
                content = Inr (of_rows [[Fin 1, Fin 2, Fin 3]])\<rparr> 225 25)) = Inr (1, 3) \<and>
   map (cell_of (content (run_dask_numpy
               \<lparr>backing = NumpyChunks, row_chunks = [1], col_chunks = [3],
                content = Inr (of_rows [[Fin 1, Fin 2, Fin 3]])\<rparr> 225 25)) 0) [0, 1, 2]
     = [Inr NaN, Inr NaN, Inr NaN]"
proof -
  let ?g = "of_rows [[Fin 1, Fin 2, Fin 3]]"
  let ?ev = "\<lparr>has_cuda = True, cuda_args = (\<lambda>sh. (sh, (1, 1))), uninit = (\<lambda>i j. Fin 7)\<rparr>"
  let ?da = "\<lparr>backing = NumpyChunks, row_chunks = [1], col_chunks = [3], content = Inr ?g\<rparr>"
  have g: "nrows ?g = 1" "ncols ?g = 3" by (simp_all add: of_rows_def)
  have host: "run_numpy ?g 225 25 = Inl ValueError"
    by (simp add: run_numpy_eq g)
  have dev_shape: "shape_of (run_cupy ?ev ?g 225 25) = Inr (1, 3)"
    by (simp add: run_cupy_shape g)
  have dev_cells: "cell_of (run_cupy ?ev ?g 225 25) 0 j = Inr NaN" for j
    by (simp add: run_cupy_cell g)
  have tiled: "content (run_dask_numpy ?da 225 25)
               = map_overlap (\<lambda>t. run_numpy t 225 25) [1] [3] ?g"
    by (simp add: run_dask_numpy_def)
  have tiled_shape: "shape_of (content (run_dask_numpy ?da 225 25)) = Inr (1, 3)"
    unfolding tiled map_overlap_run_numpy
    by (simp add: shape_of_def vstack_def hstack_def tile_out_def)
  have tiled_cells: "cell_of (content (run_dask_numpy ?da 225 25)) 0 j = Inr NaN" if "j < 3" for j
  proof -
    have "cell_of (map_overlap (\<lambda>t. run_numpy t 225 25) [1] [3] ?g) 0 j
          = Inr (halo_cell ?g 225 25 0 j)"
      by (rule tiled_item) (use that in simp_all)
    then show ?thesis
      unfolding tiled by (simp add: halo_cell_one_row g)
  qed
  have dev_row: "map (cell_of (run_cupy ?ev ?g 225 25) 0) [0, 1, 2] = [Inr NaN, Inr NaN, Inr NaN]"
    by (simp only: list.map dev_cells)
  have t0: "cell_of (content (run_dask_numpy ?da 225 25)) 0 0 = Inr NaN"
    by (rule tiled_cells) simp
  have t1: "cell_of (content (run_dask_numpy ?da 225 25)) 0 1 = Inr NaN"
    by (rule tiled_cells) simp
  have t2: "cell_of (content (run_dask_numpy ?da 225 25)) 0 2 = Inr NaN"
    by (rule tiled_cells) simp
  have tiled_row: "map (cell_of (content (run_dask_numpy ?da 225 25)) 0) [0, 1, 2]
                   = [Inr NaN, Inr NaN, Inr NaN]"
    by (simp only: list.map t0 t1 t2)
  from host dev_shape dev_row tiled_shape tiled_row show ?thesis
    by (intro conjI)
qed

end
